theory Spec2Isabelle
  imports Main "HOL-Library.Sublist"
begin

section \<open>tenper: a tmux session launcher, embedded from tenper.py\<close>

text \<open>
  The program is a script of calls to external tools (virtualenv, tmux), driven by a
  configuration read from a file. The embedding keeps the control flow of each function of
  tenper.py. Everything the script does to its surroundings is an explicit change of a
  \<open>world\<close> record; everything the surroundings answer (exit codes, the output of a
  query, the YAML loader, \<open>os.path.expandvars\<close>) comes from an \<open>outside\<close> record of
  functions over which all theorems quantify. An exception is a value \<open>Inl e\<close>.
\<close>

subsection \<open>Errors\<close>

datatype error =
    ConfigNotFound string string  \<comment> \<open>the Exception of config_for: environment, checked path\<close>
  | OSError
  | IOError
  | EOFError
  | ValueError
  | KeyError string
  | IndexError
  | FormatUnsupported
  | CalledProcessError int
  | YAMLError
  | SystemExit
  | ArgparseOption

subsection \<open>Strings\<close>

text \<open>\<open>s.split(sep)\<close> for a one-character separator: every occurrence separates, so two
  separators in a row give an empty segment and the empty string gives one empty segment.\<close>

fun split_on :: "char \<Rightarrow> string \<Rightarrow> string list" where
  "split_on d [] = [[]]"
| "split_on d (c # cs) =
     (if c = d then [] # split_on d cs
      else (case split_on d cs of [] \<Rightarrow> [[c]] | s # ss \<Rightarrow> (c # s) # ss))"

text \<open>\<open>sep.join(parts)\<close>.\<close>

fun join_with :: "string \<Rightarrow> string list \<Rightarrow> string" where
  "join_with sep [] = []"
| "join_with sep [x] = x"
| "join_with sep (x # y # ys) = x @ sep @ join_with sep (y # ys)"

definition endswith :: "string \<Rightarrow> string \<Rightarrow> bool" where
  "endswith s suf = suffix suf s"

definition is_space :: "char \<Rightarrow> bool" where
  "is_space c = (c \<in> set [CHR '' '', CHR 0x09, CHR 0x0A, CHR 0x0B, CHR 0x0C, CHR 0x0D])"

text \<open>\<open>s.strip()\<close>.\<close>

definition strip :: "string \<Rightarrow> string" where
  "strip s = rev (dropWhile is_space (rev (dropWhile is_space s)))"

definition is_digit :: "char \<Rightarrow> bool" where
  "is_digit c = (c \<in> set ''0123456789'')"

definition digit_val :: "char \<Rightarrow> int" where
  "digit_val c = int (of_char c) - 48"

text \<open>\<open>int(s)\<close> in base ten: surrounding whitespace, one optional sign, then digits only;
  anything else is a ValueError.\<close>

definition py_int :: "string \<Rightarrow> error + int" where
  "py_int s =
     (let t = strip s;
          (sgn, ds) = (case t of
                         c # r \<Rightarrow> if c = CHR ''-'' then (-1, r)
                                  else if c = CHR ''+'' then (1, r) else (1, t)
                       | [] \<Rightarrow> (1, t))
      in if ds \<noteq> [] \<and> list_all is_digit ds
         then Inr (sgn * foldl (\<lambda>a c. 10 * a + digit_val c) 0 ds)
         else Inl ValueError)"

text \<open>\<open>str(n)\<close> for an integer.\<close>

fun str_nat :: "nat \<Rightarrow> string" where
  "str_nat n =
     (if n < 10 then [''0123456789'' ! n]
      else str_nat (n div 10) @ [''0123456789'' ! (n mod 10)])"

declare str_nat.simps [simp del]

definition str_int :: "int \<Rightarrow> string" where
  "str_int i = (if i < 0 then CHR ''-'' # str_nat (nat (- i)) else str_nat (nat i))"

subsection \<open>\<open>str.format\<close> with keyword arguments\<close>

text \<open>
  \<open>command_list\<close> calls \<open>part.format(**kwargs)\<close>: keyword arguments only, no positional
  ones. The scanner below is \<open>str.format\<close> for that call: \<open>{{\<close> and \<open>}}\<close> are
  literal braces, \<open>{name}\<close> is replaced by the value of \<open>name\<close> (KeyError when it is
  missing), a field that is empty or a number asks for a positional argument and there is
  none (IndexError), a lone \<open>}\<close> or an unclosed \<open>{\<close> is a ValueError. The values are
  already strings (\<open>str(v)\<close> of what the caller passes). Fields that use a conversion, a
  format specification, an attribute or an index (one of \<open>! : . [\<close>), or a nested brace,
  are outside the fragment: the scanner answers \<open>FormatUnsupported\<close> there and no
  theorem about a successful call covers them. No template of tenper.py uses them.

  The second argument is the field being read: \<open>None\<close> in literal text, \<open>Some acc\<close>
  inside braces with the characters read so far, most recent first.
\<close>

type_synonym kwargs = "(string \<times> string) list"

definition format_field :: "kwargs \<Rightarrow> string \<Rightarrow> error + string" where
  "format_field kw name =
     (if list_ex (\<lambda>c. c \<in> set ''!:.[{'') name then Inl FormatUnsupported
      else if list_all is_digit name then Inl IndexError
      else (case map_of kw name of None \<Rightarrow> Inl (KeyError name) | Some v \<Rightarrow> Inr v))"

definition prepend :: "string \<Rightarrow> error + string \<Rightarrow> error + string" where
  "prepend s r = (case r of Inl e \<Rightarrow> Inl e | Inr t \<Rightarrow> Inr (s @ t))"

fun format_scan :: "kwargs \<Rightarrow> string option \<Rightarrow> string \<Rightarrow> error + string" where
  "format_scan kw None [] = Inr []"
| "format_scan kw None (c # cs) =
     (if c = CHR ''{'' then
        (case cs of
           [] \<Rightarrow> Inl ValueError
         | d # ds \<Rightarrow> if d = CHR ''{'' then prepend ''{'' (format_scan kw None ds)
                     else format_scan kw (Some []) cs)
      else if c = CHR ''}'' then
        (case cs of
           [] \<Rightarrow> Inl ValueError
         | d # ds \<Rightarrow> if d = CHR ''}'' then prepend ''}'' (format_scan kw None ds)
                     else Inl ValueError)
      else prepend [c] (format_scan kw None cs))"
| "format_scan kw (Some acc) [] = Inl ValueError"
| "format_scan kw (Some acc) (c # cs) =
     (if c = CHR ''}'' then
        (case format_field kw (rev acc) of
           Inl e \<Rightarrow> Inl e
         | Inr v \<Rightarrow> prepend v (format_scan kw None cs))
      else format_scan kw (Some (c # acc)) cs)"

definition format_str :: "string \<Rightarrow> kwargs \<Rightarrow> error + string" where
  "format_str s kw = format_scan kw None s"

subsection \<open>command_list\<close>

text \<open>A list comprehension whose body may raise: the first failing element aborts it.\<close>

fun collect :: "('a \<Rightarrow> error + 'b) \<Rightarrow> 'a list \<Rightarrow> error + 'b list" where
  "collect f [] = Inr []"
| "collect f (x # xs) =
     (case f x of
        Inl e \<Rightarrow> Inl e
      | Inr y \<Rightarrow> (case collect f xs of Inl e \<Rightarrow> Inl e | Inr ys \<Rightarrow> Inr (y # ys)))"

text \<open>\<open>[part.format(**kwargs) for part in template.split(' ')]\<close>\<close>

definition command_list :: "string \<Rightarrow> kwargs \<Rightarrow> error + string list" where
  "command_list template kw = collect (\<lambda>part. format_str part kw) (split_on CHR '' '' template)"

subsection \<open>The world and the outside\<close>

text \<open>
  The file system is a list of entries, path and node; the first entry of a path counts.
  Paths are compared as the strings the program builds (no normalisation, no links). The
  order of the list is the order in which \<open>os.listdir\<close> reports, which Python leaves
  open. \<open>home\<close> is \<open>os.path.expanduser('~')\<close>, \<open>stdin\<close> the lines still to be read
  from the terminal, \<open>issued\<close> the external commands handed to the operating system so
  far, oldest first, and \<open>stdout\<close> the lines printed.
\<close>

datatype node = File string | Dir

datatype event =
    Exec "string list"   \<comment> \<open>\<open>subprocess.call(argv)\<close>\<close>
  | Shell string         \<comment> \<open>\<open>subprocess.check_output(cmd, shell=True)\<close>\<close>

record world =
  home :: string
  environ :: "(string \<times> string) list"
  files :: "(string \<times> node) list"
  stdin :: "string list"
  issued :: "event list"
  stdout :: "string list"

text \<open>
  An outside answer may depend on everything issued before, so it can differ from call to
  call. \<open>spawn\<close> gives the exit code of a command, or \<open>None\<close> when the program cannot
  be executed (\<open>subprocess.call\<close> raises OSError); \<open>shell_out\<close> gives the exit code and
  output of a shell command. \<open>expandvars\<close> and \<open>yaml_load\<close> are library code that is
  not part of tenper.py. What an external command does to the file system is not
  followed: no function of tenper.py looks at the file system again after it has run one.

  The configuration a loader returns is taken in the shape the program reads it in: a
  key the program indexes (\<open>config['session name']\<close>) is a field, a key it reads
  with \<open>get\<close> is an optional field, and scalars are strings. A loaded document of
  another shape (a missing key, a value of another type) is outside the embedding.
\<close>

record virtualenv_section =
  python_binary :: "string option"   \<comment> \<open>key 'python binary'\<close>
  site_packages :: "bool option"     \<comment> \<open>key 'site packages?'\<close>
  venv_path :: "string option"       \<comment> \<open>key 'path'\<close>

record window =
  wname :: string                    \<comment> \<open>key 'name'\<close>
  panes :: "string option list"      \<comment> \<open>an absent 'panes' is the empty list\<close>
  layout :: "string option"

record config =
  session_name :: string                           \<comment> \<open>key 'session name'\<close>
  virtualenv :: "virtualenv_section option"
  project_root :: string                           \<comment> \<open>key 'project root'\<close>
  environment :: "(string \<times> string) list option"   \<comment> \<open>in the order \<open>iteritems\<close> gives\<close>
  windows :: "window list"

record outside =
  spawn :: "event list \<Rightarrow> string list \<Rightarrow> int option"
  shell_out :: "event list \<Rightarrow> string \<Rightarrow> int \<times> string"
  expandvars :: "string \<Rightarrow> string"
  yaml_load :: "string \<Rightarrow> config option"   \<comment> \<open>None: the loader raises\<close>

text \<open>A statement: it ends with a value or an exception, and leaves a world either way.\<close>

type_synonym 'a prog = "world \<Rightarrow> (error + 'a) \<times> world"

definition return :: "'a \<Rightarrow> 'a prog" where
  "return a w = (Inr a, w)"

definition raise :: "error \<Rightarrow> 'a prog" where
  "raise e w = (Inl e, w)"

definition bind :: "'a prog \<Rightarrow> ('a \<Rightarrow> 'b prog) \<Rightarrow> 'b prog" where
  "bind m f w = (case m w of (Inl e, w') \<Rightarrow> (Inl e, w') | (Inr a, w') \<Rightarrow> f a w')"

definition next_do :: "'a prog \<Rightarrow> 'b prog \<Rightarrow> 'b prog" where
  "next_do m n = bind m (\<lambda>_. n)"

definition lift :: "error + 'a \<Rightarrow> 'a prog" where
  "lift r w = (r, w)"

text \<open>\<open>print(s)\<close>\<close>

definition print :: "string \<Rightarrow> unit prog" where
  "print s w = (Inr (), w\<lparr>stdout := stdout w @ [s]\<rparr>)"

text \<open>
  \<open>raw_input(prompt)\<close>, and \<open>input(prompt)\<close> when that raised ValueError or EOFError.
  At the end of the input both raise EOFError, so the second call changes nothing.
\<close>

definition ask :: "string \<Rightarrow> string prog" where
  "ask prompt w =
     (case stdin w of
        [] \<Rightarrow> (Inl EOFError, w)
      | l # ls \<Rightarrow> (Inr l, w\<lparr>stdin := ls\<rparr>))"

subsection \<open>Paths and the file system\<close>

text \<open>\<open>os.path.join\<close> for two components, and for three.\<close>

definition path_join :: "string \<Rightarrow> string \<Rightarrow> string" where
  "path_join a b =
     (if b \<noteq> [] \<and> hd b = CHR ''/'' then b
      else if a = [] \<or> last a = CHR ''/'' then a @ b
      else a @ ''/'' @ b)"

definition path_join3 :: "string \<Rightarrow> string \<Rightarrow> string \<Rightarrow> string" where
  "path_join3 a b c = path_join (path_join a b) c"

text \<open>The module's \<open>configs\<close> and \<open>virtualenvs\<close>, and \<open>os.path.exists\<close>.\<close>

definition configs :: "world \<Rightarrow> string" where
  "configs w = path_join (home w) ''.tenper''"

definition virtualenvs :: "world \<Rightarrow> string" where
  "virtualenvs w = path_join (home w) ''.virtualenvs''"

definition exists :: "string \<Rightarrow> world \<Rightarrow> bool" where
  "exists p w = (map_of (files w) p \<noteq> None)"

text \<open>A path lies under a directory when it continues the directory's path after a
  slash.\<close>

definition dir_prefix :: "string \<Rightarrow> string" where
  "dir_prefix d = (if d \<noteq> [] \<and> last d = CHR ''/'' then d else d @ ''/'')"

definition path_under :: "string \<Rightarrow> string \<Rightarrow> bool" where
  "path_under d p = (prefix (dir_prefix d) p \<and> length (dir_prefix d) < length p)"

text \<open>\<open>open(p, 'r').read()\<close>\<close>

definition read_file :: "string \<Rightarrow> string prog" where
  "read_file p w =
     (case map_of (files w) p of
        Some (File c) \<Rightarrow> (Inr c, w)
      | _ \<Rightarrow> (Inl IOError, w))"

text \<open>\<open>shutil.rmtree(p)\<close>: the directory and everything under it; OSError when \<open>p\<close> is
  not a directory, in particular when nothing is there.\<close>

definition rmtree :: "string \<Rightarrow> unit prog" where
  "rmtree p w =
     (case map_of (files w) p of
        Some Dir \<Rightarrow>
          (Inr (), w\<lparr>files := filter (\<lambda>(q, _). q \<noteq> p \<and> \<not> path_under p q) (files w)\<rparr>)
      | _ \<Rightarrow> (Inl OSError, w))"

text \<open>\<open>os.remove(p)\<close>: a file only.\<close>

definition remove_file :: "string \<Rightarrow> unit prog" where
  "remove_file p w =
     (case map_of (files w) p of
        Some (File c) \<Rightarrow> (Inr (), w\<lparr>files := filter (\<lambda>(q, _). q \<noteq> p) (files w)\<rparr>)
      | _ \<Rightarrow> (Inl OSError, w))"

text \<open>\<open>os.rmdir(p)\<close>: an empty directory only.\<close>

definition rmdir :: "string \<Rightarrow> unit prog" where
  "rmdir p w =
     (case map_of (files w) p of
        Some Dir \<Rightarrow>
          (if list_ex (\<lambda>(q, _). path_under p q) (files w) then (Inl OSError, w)
           else (Inr (), w\<lparr>files := filter (\<lambda>(q, _). q \<noteq> p) (files w)\<rparr>))
      | _ \<Rightarrow> (Inl OSError, w))"

text \<open>\<open>os.listdir(p)\<close>: the names directly under a directory.\<close>

definition listdir :: "string \<Rightarrow> string list prog" where
  "listdir p w =
     (case map_of (files w) p of
        Some Dir \<Rightarrow>
          (Inr (remdups
                  (filter (\<lambda>n. CHR ''/'' \<notin> set n)
                     (map (\<lambda>(q, _). drop (length (dir_prefix p)) q)
                        (filter (\<lambda>(q, _). path_under p q) (files w))))), w)
      | _ \<Rightarrow> (Inl OSError, w))"

subsection \<open>Running external commands\<close>

text \<open>\<open>run(cmd, **kwargs)\<close>: \<open>subprocess.call(command_list(cmd, **kwargs))\<close>, the exit
  code returned.\<close>

definition run :: "outside \<Rightarrow> string \<Rightarrow> kwargs \<Rightarrow> int prog" where
  "run ext cmd kw w =
     (case command_list cmd kw of
        Inl e \<Rightarrow> (Inl e, w)
      | Inr argv \<Rightarrow>
          (case spawn ext (issued w) argv of
             None \<Rightarrow> (Inl OSError, w\<lparr>issued := issued w @ [Exec argv]\<rparr>)
           | Some rc \<Rightarrow> (Inr rc, w\<lparr>issued := issued w @ [Exec argv]\<rparr>)))"

text \<open>\<open>subprocess.check_output(cmd, shell=True)\<close>: the output, or CalledProcessError on a
  non-zero exit.\<close>

definition check_output :: "outside \<Rightarrow> string \<Rightarrow> string prog" where
  "check_output ext cmd w =
     (case shell_out ext (issued w) cmd of
        (rc, out) \<Rightarrow>
          (if rc = 0 then (Inr out, w\<lparr>issued := issued w @ [Shell cmd]\<rparr>)
           else (Inl (CalledProcessError rc), w\<lparr>issued := issued w @ [Shell cmd]\<rparr>)))"

text \<open>\<open>int(subprocess.check_output(cmd, shell=True).split(':')[0])\<close>\<close>

definition first_field :: "string \<Rightarrow> string" where
  "first_field out = (case split_on CHR '':'' out of [] \<Rightarrow> [] | x # _ \<Rightarrow> x)"

definition first_index :: "outside \<Rightarrow> string \<Rightarrow> int prog" where
  "first_index ext cmd = bind (check_output ext cmd) (\<lambda>out. lift (py_int (first_field out)))"

text \<open>\<open>run\<close> as a statement, its value dropped.\<close>

definition call :: "outside \<Rightarrow> string \<Rightarrow> kwargs \<Rightarrow> unit prog" where
  "call ext cmd kw = bind (run ext cmd kw) (\<lambda>_. return ())"

subsection \<open>config_for\<close>

text \<open>\<open>os.path.join(configs, '{}.yml'.format(env))\<close>\<close>

definition config_path :: "world \<Rightarrow> string \<Rightarrow> string" where
  "config_path w env = path_join (configs w) (env @ ''.yml'')"

definition config_for :: "outside \<Rightarrow> string \<Rightarrow> config prog" where
  "config_for ext env w =
     (let fn = config_path w env
      in if exists fn w
         then bind (read_file fn)
                (\<lambda>c. case yaml_load ext c of None \<Rightarrow> raise YAMLError | Some cfg \<Rightarrow> return cfg) w
         else raise (ConfigNotFound env fn) w)"

subsection \<open>confirm_virtualenv and rebuild\<close>

text \<open>\<open>config.get('virtualenv')\<close> is true for a mapping that has a key; an absent, null
  or empty section is false.\<close>

definition requests_virtualenv :: "config \<Rightarrow> bool" where
  "requests_virtualenv cfg =
     (case virtualenv cfg of
        None \<Rightarrow> False
      | Some v \<Rightarrow> python_binary v \<noteq> None \<or> site_packages v \<noteq> None \<or> venv_path v \<noteq> None)"

text \<open>A string or None used as a condition.\<close>

definition truthy :: "string option \<Rightarrow> bool" where
  "truthy x = (case x of None \<Rightarrow> False | Some s \<Rightarrow> s \<noteq> [])"

text \<open>The \<open>path\<close> of confirm_virtualenv.\<close>

definition virtualenv_dir :: "outside \<Rightarrow> world \<Rightarrow> config \<Rightarrow> virtualenv_section \<Rightarrow> string" where
  "virtualenv_dir ext w cfg v =
     (if truthy (venv_path v) then expandvars ext (the (venv_path v))
      else path_join (virtualenvs w) (session_name cfg))"

definition virtualenv_kwargs :: "virtualenv_section \<Rightarrow> string \<Rightarrow> kwargs" where
  "virtualenv_kwargs v path =
     [(''python_binary'', (case python_binary v of None \<Rightarrow> ''/usr/bin/python'' | Some b \<Rightarrow> b)),
      (''site_packages'', (if site_packages v = Some True then ''--system-site-packages''
                           else ''--no-site-packages'')),
      (''dir'', path)]"

definition confirm_virtualenv :: "outside \<Rightarrow> config \<Rightarrow> bool \<Rightarrow> unit prog" where
  "confirm_virtualenv ext cfg delete_first w =
     (if \<not> requests_virtualenv cfg then return () w
      else
        (let v = the (virtualenv cfg);
             path = virtualenv_dir ext w cfg v
         in if exists path w \<and> \<not> delete_first then return () w
            else next_do (if delete_first then rmtree path else return ())
                   (call ext ''virtualenv -p {python_binary} {site_packages} {dir}''
                      (virtualenv_kwargs v path)) w))"

definition rebuild :: "outside \<Rightarrow> string \<Rightarrow> unit prog" where
  "rebuild ext env = bind (config_for ext env) (\<lambda>cfg. confirm_virtualenv ext cfg True)"

subsection \<open>delete\<close>

definition affirmative :: "string \<Rightarrow> bool" where
  "affirmative resp = (strip resp \<in> set [''yes'', ''YES'', ''y'', ''Y''])"

text \<open>\<open>try: os.rmdir(configs) except OSError: pass\<close>\<close>

definition try_rmdir :: "string \<Rightarrow> unit prog" where
  "try_rmdir p w = (case rmdir p w of (Inl OSError, w') \<Rightarrow> (Inr (), w') | r \<Rightarrow> r)"

definition delete :: "string \<Rightarrow> unit prog" where
  "delete env w =
     (let config_file = path_join (configs w) (env @ ''.yml'');
          venv = path_join (virtualenvs w) env
      in next_do
           (if exists venv w then
              bind (ask (''There's a virtualenv for this environment in '' @ venv @
                         ''. Do you want to delete it? ''))
                (\<lambda>resp. if affirmative resp
                         then next_do (rmtree venv) (print (''Deleted '' @ venv @ ''.''))
                         else return ())
            else return ())
           (next_do (remove_file config_file)
              (next_do (print (''Removed '' @ config_file @ ''.''))
                 (try_rmdir (configs w)))) w)"

subsection \<open>start\<close>

definition is_alpha :: "char \<Rightarrow> bool" where
  "is_alpha c = (c \<in> set ''abcdefghijklmnopqrstuvwxyzABCDEFGHIJKLMNOPQRSTUVWXYZ'')"

definition is_word :: "char \<Rightarrow> bool" where
  "is_word c = (is_alpha c \<or> is_digit c \<or> c = CHR ''_'')"

text \<open>
  \<open>re.sub(r'\$([a-zA-Z][a-zA-Z0-9_]*)', lambda match: os.environ.get(match.group(1), ''), v)\<close>:
  a dollar sign followed by a letter starts a reference, which runs as far as letters,
  digits and underscores go and is replaced by the variable's value, or by nothing when
  the variable is not set. The second argument is the reference being read; the
  character that ends a reference is read as any other character of the text.
\<close>

definition env_get :: "(string \<times> string) list \<Rightarrow> string \<Rightarrow> string" where
  "env_get env k = (case map_of env k of None \<Rightarrow> [] | Some x \<Rightarrow> x)"

fun sub_refs :: "(string \<times> string) list \<Rightarrow> string option \<Rightarrow> string \<Rightarrow> string" where
  "sub_refs env None [] = []"
| "sub_refs env None (c # cs) =
     (if c = CHR ''$'' then
        (case cs of
           [] \<Rightarrow> [c]
         | d # ds \<Rightarrow> if is_alpha d then sub_refs env (Some [d]) ds
                     else c # sub_refs env None cs)
      else c # sub_refs env None cs)"
| "sub_refs env (Some acc) [] = env_get env (rev acc)"
| "sub_refs env (Some acc) (c # cs) =
     (if is_word c then sub_refs env (Some (c # acc)) cs
      else env_get env (rev acc) @
           (if c = CHR ''$'' then
              (case cs of
                 [] \<Rightarrow> [c]
               | d # ds \<Rightarrow> if is_alpha d then sub_refs env (Some [d]) ds
                           else c # sub_refs env None cs)
            else c # sub_refs env None cs))"

text \<open>The loop over \<open>config['environment'].iteritems()\<close>.\<close>

fun environment_loop :: "outside \<Rightarrow> string \<Rightarrow> (string \<times> string) list \<Rightarrow> unit prog" where
  "environment_loop ext session [] = return ()"
| "environment_loop ext session ((k, v) # kvs) =
     (\<lambda>w. next_do
        (call ext ''tmux set-environment -t {session} {key} {value}''
           [(''session'', session), (''key'', k), (''value'', sub_refs (environ w) None v)])
        (environment_loop ext session kvs) w)"

text \<open>The body of the loop over \<open>enumerate(window.get('panes', []))\<close>. \<open>vpath\<close> is
  \<open>virtualenv_path\<close>, which is None exactly when \<open>virtualenv\<close> is false.\<close>

definition pane_body ::
  "outside \<Rightarrow> string \<Rightarrow> int \<Rightarrow> string option \<Rightarrow> nat \<Rightarrow> string option \<Rightarrow> unit prog" where
  "pane_body ext window_target base_pindex vpath pindex pane =
     (let pane_target = window_target @ ''.'' @ str_int (base_pindex + int pindex)
      in next_do
           (if pindex \<noteq> 0
            then call ext ''tmux split-window -t {window_target}.0''
                   [(''window_target'', window_target)]
            else return ())
           (next_do
              (case vpath of
                 Some vp \<Rightarrow> call ext ''tmux send-keys -t {pane_target} {command} ENTER''
                             [(''pane_target'', pane_target), (''command'', ''source '' @ vp)]
               | None \<Rightarrow> return ())
              (if truthy pane
               then call ext ''tmux send-keys -t {pane_target} {command} ENTER''
                      [(''pane_target'', pane_target), (''command'', the pane)]
               else return ())))"

fun pane_loop ::
  "outside \<Rightarrow> string \<Rightarrow> int \<Rightarrow> string option \<Rightarrow> nat \<Rightarrow> string option list \<Rightarrow> unit prog" where
  "pane_loop ext window_target base_pindex vpath pindex [] = return ()"
| "pane_loop ext window_target base_pindex vpath pindex (pane # rest) =
     next_do (pane_body ext window_target base_pindex vpath pindex pane)
       (pane_loop ext window_target base_pindex vpath (Suc pindex) rest)"

text \<open>The body of the loop over \<open>enumerate(config['windows'])\<close>.\<close>

definition window_body ::
  "outside \<Rightarrow> string \<Rightarrow> int \<Rightarrow> string option \<Rightarrow> nat \<Rightarrow> window \<Rightarrow> unit prog" where
  "window_body ext session base_index vpath index win =
     (let window_target = session @ '':'' @ str_int (base_index + int index)
      in next_do
           (if index = 0 then
              (let base_target = session @ '':'' @ str_int base_index;
                   temp_target = session @ '':'' @ str_int (base_index + 1)
               in next_do
                    (call ext ''tmux new-window -d -t {temp_target} -n {name}''
                       [(''temp_target'', temp_target), (''name'', wname win)])
                    (next_do
                       (call ext ''tmux kill-window -t {base_target}''
                          [(''base_target'', base_target)])
                       (call ext ''tmux move-window -s {temp_target} -t {base_target}''
                          [(''temp_target'', temp_target), (''base_target'', base_target)])))
            else call ext ''tmux new-window -d -t {window_target} -n {name}''
                   [(''window_target'', window_target), (''name'', wname win)])
           (bind (first_index ext (''tmux list-panes -t '' @ window_target))
              (\<lambda>base_pindex.
                 next_do (pane_loop ext window_target base_pindex vpath 0 (panes win))
                   (next_do
                      (if truthy (layout win)
                       then call ext ''tmux select-layout -t {window_target} {layout}''
                              [(''window_target'', window_target), (''layout'', the (layout win))]
                       else return ())
                      (call ext ''tmux select-pane -t {window_target}.{base_pindex}''
                         [(''window_target'', window_target),
                          (''base_pindex'', str_int base_pindex)])))))"

fun window_loop ::
  "outside \<Rightarrow> string \<Rightarrow> int \<Rightarrow> string option \<Rightarrow> nat \<Rightarrow> window list \<Rightarrow> unit prog" where
  "window_loop ext session base_index vpath index [] = return ()"
| "window_loop ext session base_index vpath index (win # rest) =
     next_do (window_body ext session base_index vpath index win)
       (window_loop ext session base_index vpath (Suc index) rest)"

text \<open>\<open>virtualenv_path\<close> of start.\<close>

definition virtualenv_path :: "outside \<Rightarrow> world \<Rightarrow> config \<Rightarrow> string option" where
  "virtualenv_path ext w cfg =
     (if \<not> requests_virtualenv cfg then None
      else Some (expandvars ext
                   (path_join3
                      (if truthy (venv_path (the (virtualenv cfg)))
                       then the (venv_path (the (virtualenv cfg)))
                       else path_join (virtualenvs w) (session_name cfg))
                      ''bin'' ''activate'')))"

text \<open>What start does once the session is known not to exist.\<close>

definition build_session :: "outside \<Rightarrow> config \<Rightarrow> string option \<Rightarrow> unit prog" where
  "build_session ext cfg vpath =
     (let session = session_name cfg
      in next_do (call ext ''tmux new-session -d -s {session}'' [(''session'', session)])
        (next_do
           (call ext ''tmux set-option -t {session} default-path {path}''
              [(''session'', session), (''path'', expandvars ext (project_root cfg))])
        (next_do
           (call ext ''tmux set-option -t {session} status-left-length {length}''
              [(''session'', session_name cfg),
               (''length'', str_int (int (length (session_name cfg)) + 2))])
        (next_do
           (case environment cfg of
              None \<Rightarrow> return ()
            | Some kvs \<Rightarrow> environment_loop ext session kvs)
        (bind (first_index ext (''tmux list-windows -t '' @ session))
           (\<lambda>base_index.
              next_do (window_loop ext session base_index vpath 0 (windows cfg))
                (call ext ''tmux -2 attach-session -t {session}''
                   [(''session'', session)])))))))"

definition start :: "outside \<Rightarrow> string \<Rightarrow> unit prog" where
  "start ext env =
     bind (config_for ext env)
       (\<lambda>cfg. next_do (confirm_virtualenv ext cfg False)
          (\<lambda>w. (let vpath = virtualenv_path ext w cfg
                in bind (run ext ''tmux has-session -t {session}''
                           [(''session'', session_name cfg)])
                     (\<lambda>rc. if rc = 0 then
                             next_do
                               (ask ''Session already exists: attaching. (Press any key to continue.)'')
                               (call ext ''tmux -2 attach-session -t {session}''
                                  [(''session'', session_name cfg)])
                           else build_session ext cfg vpath)) w))"

subsection \<open>parse_args\<close>

text \<open>
  What \<open>parser.parse_args(args)\<close> leaves in \<open>parsed\<close>, for the parser that parse_args
  builds: with one argument a positional \<open>project_name\<close> and no attribute \<open>command\<close>;
  otherwise a subcommand, one of edit, rebuild and delete, with its \<open>project_name\<close>.
  argparse ends the program (SystemExit) on a usage error: no argument, an unknown
  subcommand, a missing or a surplus argument. An argument that begins with a dash is
  read by argparse as an option; that reading is not modelled (\<open>ArgparseOption\<close>).
\<close>

record parsed =
  project_name :: string
  command :: "string option"

definition argparse :: "string list \<Rightarrow> error + parsed" where
  "argparse args =
     (if list_ex (\<lambda>a. a \<noteq> [] \<and> hd a = CHR ''-'') args then Inl ArgparseOption
      else if length args = 1 then Inr \<lparr>project_name = hd args, command = None\<rparr>
      else (case args of
              [c, p] \<Rightarrow> if c \<in> set [''edit'', ''rebuild'', ''delete'']
                        then Inr \<lparr>project_name = p, command = Some c\<rparr>
                        else Inl SystemExit
            | _ \<Rightarrow> Inl SystemExit))"

datatype handler =
  Handler_list_envs | Handler_completions | Handler_edit | Handler_rebuild | Handler_delete
  | Handler_start

text \<open>\<open>globals()[parsed.command]\<close>, for the functions a subcommand can name.\<close>

definition globals_lookup :: "string \<Rightarrow> error + handler" where
  "globals_lookup c =
     (if c = ''edit'' then Inr Handler_edit
      else if c = ''rebuild'' then Inr Handler_rebuild
      else if c = ''delete'' then Inr Handler_delete
      else Inl (KeyError c))"

definition parse_args :: "string list \<Rightarrow> error + (handler \<times> string option)" where
  "parse_args args =
     (case argparse args of
        Inl e \<Rightarrow> Inl e
      | Inr p \<Rightarrow>
          (let project = (if project_name p \<noteq> [] then Some (project_name p) else None)
           in if project_name p = ''list'' then Inr (Handler_list_envs, project)
              else if project_name p = ''completions'' then Inr (Handler_completions, project)
              else (case command p of
                      Some c \<Rightarrow> (case globals_lookup c of
                                   Inl e \<Rightarrow> Inl e
                                 | Inr h \<Rightarrow> Inr (h, project))
                    | None \<Rightarrow> Inr (Handler_start, project))))"

subsection \<open>completions\<close>

text \<open>The loop over \<open>os.listdir(configs)\<close>, appending to \<open>args\<close>.\<close>

fun completions_loop :: "string list \<Rightarrow> string list \<Rightarrow> string list" where
  "completions_loop args [] = args"
| "completions_loop args (f # fs) =
     completions_loop (if endswith f ''.yml'' then args @ [take (length f - 4) f] else args) fs"

definition completions :: "unit prog" where
  "completions w =
     (let args = [''list'', ''edit'', ''rebuild'', ''delete'']
      in if exists (configs w) w
         then bind (listdir (configs w))
                (\<lambda>fs. print (join_with '' '' (completions_loop args fs))) w
         else print (join_with '' '' args) w)"

subsection \<open>What the launcher is expected to issue\<close>

text \<open>
  The sequences below are written from the description of the launcher, not from the
  code of start: the commands of one pane, of one window, and of a whole session that
  did not exist. \<open>base_index\<close> is the index tmux reports for the first window and
  \<open>base_pindex\<close> the one it reports for the first pane of a window. The two queries
  that ask for them (list-windows, list-panes) appear where they are made.
\<close>

definition tmux :: "string list \<Rightarrow> event" where
  "tmux args = Exec (''tmux'' # args)"

definition virtualenv_command :: "virtualenv_section \<Rightarrow> string \<Rightarrow> event" where
  "virtualenv_command v path =
     Exec [''virtualenv'', ''-p'',
           (case python_binary v of None \<Rightarrow> ''/usr/bin/python'' | Some b \<Rightarrow> b),
           (if site_packages v = Some True then ''--system-site-packages''
            else ''--no-site-packages''),
           path]"

text \<open>The environment-creation command, when the configuration asks for a virtualenv
  and nothing is at its path.\<close>

definition provision_commands :: "outside \<Rightarrow> world \<Rightarrow> config \<Rightarrow> event list" where
  "provision_commands ext w cfg =
     (if requests_virtualenv cfg \<and> \<not> exists (virtualenv_dir ext w cfg (the (virtualenv cfg))) w
      then [virtualenv_command (the (virtualenv cfg))
              (virtualenv_dir ext w cfg (the (virtualenv cfg)))]
      else [])"

definition creates_environment :: "event \<Rightarrow> bool" where
  "creates_environment e = (case e of Exec (p # _) \<Rightarrow> p = ''virtualenv'' | _ \<Rightarrow> False)"

definition has_session :: "config \<Rightarrow> event" where
  "has_session cfg = tmux [''has-session'', ''-t'', session_name cfg]"

definition attach_session :: "config \<Rightarrow> event" where
  "attach_session cfg = tmux [''-2'', ''attach-session'', ''-t'', session_name cfg]"

text \<open>The answer of tmux to has-session, asked after the virtualenv was provided.\<close>

definition session_exists :: "outside \<Rightarrow> world \<Rightarrow> config \<Rightarrow> bool" where
  "session_exists ext w cfg =
     (spawn ext (issued w @ provision_commands ext w cfg)
        [''tmux'', ''has-session'', ''-t'', session_name cfg] = Some 0)"

definition pane_commands ::
  "string \<Rightarrow> int \<Rightarrow> string option \<Rightarrow> nat \<times> string option \<Rightarrow> event list" where
  "pane_commands target base_pindex vpath ip =
     (case ip of (pindex, pane) \<Rightarrow>
        (if pindex = 0 then [] else [tmux [''split-window'', ''-t'', target @ ''.0'']]) @
        (case vpath of
           None \<Rightarrow> []
         | Some vp \<Rightarrow> [tmux [''send-keys'', ''-t'',
                             target @ ''.'' @ str_int (base_pindex + int pindex),
                             ''source '' @ vp, ''ENTER'']]) @
        (if truthy pane
         then [tmux [''send-keys'', ''-t'',
                     target @ ''.'' @ str_int (base_pindex + int pindex), the pane, ''ENTER'']]
         else []))"

definition window_commands ::
  "string \<Rightarrow> int \<Rightarrow> string option \<Rightarrow> (nat \<times> window) \<times> int \<Rightarrow> event list" where
  "window_commands session base_index vpath iwb =
     (case iwb of ((index, win), base_pindex) \<Rightarrow>
        (let target = session @ '':'' @ str_int (base_index + int index);
             base = session @ '':'' @ str_int base_index;
             temp = session @ '':'' @ str_int (base_index + 1)
         in (if index = 0
             then [tmux [''new-window'', ''-d'', ''-t'', temp, ''-n'', wname win],
                   tmux [''kill-window'', ''-t'', base],
                   tmux [''move-window'', ''-s'', temp, ''-t'', base]]
             else [tmux [''new-window'', ''-d'', ''-t'', target, ''-n'', wname win]]) @
            [Shell (''tmux list-panes -t '' @ target)] @
            concat (map (pane_commands target base_pindex vpath) (enumerate 0 (panes win))) @
            (if truthy (layout win)
             then [tmux [''select-layout'', ''-t'', target, the (layout win)]]
             else []) @
            [tmux [''select-pane'', ''-t'', target @ ''.'' @ str_int base_pindex]]))"

definition session_commands ::
  "outside \<Rightarrow> world \<Rightarrow> config \<Rightarrow> int \<Rightarrow> int list \<Rightarrow> event list" where
  "session_commands ext w cfg base_index base_pindexes =
     [tmux [''new-session'', ''-d'', ''-s'', session_name cfg],
      tmux [''set-option'', ''-t'', session_name cfg, ''default-path'',
            expandvars ext (project_root cfg)],
      tmux [''set-option'', ''-t'', session_name cfg, ''status-left-length'',
            str_int (int (length (session_name cfg)) + 2)]] @
     map (\<lambda>(k, v). tmux [''set-environment'', ''-t'', session_name cfg, k,
                          sub_refs (environ w) None v])
       (case environment cfg of None \<Rightarrow> [] | Some kvs \<Rightarrow> kvs) @
     [Shell (''tmux list-windows -t '' @ session_name cfg)] @
     concat (map (window_commands (session_name cfg) base_index (virtualenv_path ext w cfg))
               (zip (enumerate 0 (windows cfg)) base_pindexes)) @
     [attach_session cfg]"

text \<open>The environment names that the configuration directory holds: the names in it
  that end in \<open>.yml\<close>, without that suffix.\<close>

definition environment_names :: "world \<Rightarrow> string list" where
  "environment_names w =
     (case listdir (configs w) w of
        (Inr fs, _) \<Rightarrow> map (\<lambda>f. take (length f - 4) f) (filter (\<lambda>f. endswith f ''.yml'') fs)
      | (Inl _, _) \<Rightarrow> [])"

text \<open>Nothing but the path \<open>p\<close> lies under the directory \<open>d\<close>.\<close>

definition only_entry_under :: "string \<Rightarrow> string \<Rightarrow> world \<Rightarrow> bool" where
  "only_entry_under d p w = (\<not> list_ex (\<lambda>(q, _). path_under d q \<and> q \<noteq> p) (files w))"

text \<open>The commands of the launcher that change a session, as opposed to asking about it
  or attaching to it.\<close>

definition modifies_session :: "event \<Rightarrow> bool" where
  "modifies_session e =
     (case e of
        Exec (p # sub # _) \<Rightarrow>
          p = ''tmux'' \<and>
          sub \<in> set [''new-session'', ''new-window'', ''kill-window'', ''move-window'',
                     ''set-option'', ''set-environment'', ''split-window'', ''send-keys'',
                     ''select-layout'', ''select-pane'']
      | _ \<Rightarrow> False)"

text \<open>What a statement adds to the issued commands, from a given world.\<close>

definition new_commands :: "'a prog \<Rightarrow> world \<Rightarrow> event list" where
  "new_commands m w = drop (length (issued w)) (issued (snd (m w)))"

text \<open>An outside that cooperates: every command can be executed (with whatever exit
  code), and every query succeeds and begins with a number before the first colon, as
  the lists of tmux do.\<close>

definition responsive :: "outside \<Rightarrow> bool" where
  "responsive ext =
     ((\<forall>h argv. spawn ext h argv \<noteq> None) \<and>
      (\<forall>h cmd. fst (shell_out ext h cmd) = 0 \<and>
         (\<exists>b. py_int (first_field (snd (shell_out ext h cmd))) = Inr b)))"

text \<open>A statement that ends normally from every world.\<close>

definition ends_normally :: "'a prog \<Rightarrow> bool" where
  "ends_normally m = (\<forall>w. \<exists>a. fst (m w) = Inr a)"

text \<open>A statement that, however it ends, only adds commands of one kind.\<close>

definition emits_only :: "(event \<Rightarrow> bool) \<Rightarrow> 'a prog \<Rightarrow> bool" where
  "emits_only P m = (\<forall>w. \<exists>evs. issued (snd (m w)) = issued w @ evs \<and> list_all P evs)"

text \<open>A command that does not create a virtualenv.\<close>

abbreviation other_command :: "event \<Rightarrow> bool" where
  "other_command e \<equiv> \<not> creates_environment e"

subsection \<open>A concrete project\<close>

definition demo_config :: config where
  "demo_config =
     \<lparr>session_name = ''proj'',
      virtualenv = Some \<lparr>python_binary = Some ''/usr/bin/python'',
                         site_packages = Some False, venv_path = None\<rparr>,
      project_root = ''/src/proj'',
      environment = Some [(''MYKEY'', ''myvalue''), (''PATH'', ''$PATH:/opt/bin'')],
      windows = [\<lparr>wname = ''One'', panes = [Some ''ls -l''], layout = None\<rparr>,
                 \<lparr>wname = ''Two'', panes = [Some ''ls'', Some ''vim''],
                  layout = Some ''main-vertical''\<rparr>]\<rparr>"

text \<open>An outside in which no session exists yet (has-session, as every command, exits
  with 1) and tmux counts windows and panes from 0.\<close>

definition demo_outside :: outside where
  "demo_outside =
     \<lparr>spawn = (\<lambda>_ _. Some 1), shell_out = (\<lambda>_ _. (0, ''0: bash'')),
      expandvars = (\<lambda>p. p), yaml_load = (\<lambda>_. Some demo_config)\<rparr>"

text \<open>The same outside with the session there: every command exits with 0.\<close>

definition demo_outside_running :: outside where
  "demo_outside_running = demo_outside\<lparr>spawn := (\<lambda>_ _. Some 0)\<rparr>"

text \<open>A home directory with the project's configuration file and no virtualenv; the
  user will answer \<open>n\<close>.\<close>

definition demo_world :: world where
  "demo_world =
     \<lparr>home = ''/home/u'', environ = [(''PATH'', ''/bin'')],
      files = [(''/home/u'', Dir), (''/home/u/.tenper'', Dir),
               (''/home/u/.tenper/proj.yml'', File ''session name: proj''),
               (''/home/u/.tenper/notes.txt'', File ''todo''),
               (''/home/u/.tenper/site.yml'', File ''session name: site'')],
      stdin = [''n''], issued = [], stdout = []\<rparr>"

text \<open>The same with the project's virtualenv in place.\<close>

definition demo_world_venv :: world where
  "demo_world_venv =
     demo_world\<lparr>files := files demo_world @
                   [(''/home/u/.virtualenvs'', Dir), (''/home/u/.virtualenvs/proj'', Dir),
                    (''/home/u/.virtualenvs/proj/bin'', Dir)]\<rparr>"

text \<open>A home in which the project's file is the only entry of the configuration
  directory, and one in which the project has a virtualenv and no configuration file.\<close>

definition demo_world_single :: world where
  "demo_world_single =
     demo_world\<lparr>files := [(''/home/u'', Dir), (''/home/u/.tenper'', Dir),
                            (''/home/u/.tenper/proj.yml'', File ''session name: proj''),
                            (''/home/u/.virtualenvs'', Dir),
                            (''/home/u/.virtualenvs/proj'', Dir)]\<rparr>"

definition demo_world_orphan :: world where
  "demo_world_orphan =
     demo_world\<lparr>files := [(''/home/u'', Dir), (''/home/u/.tenper'', Dir),
                            (''/home/u/.virtualenvs'', Dir),
                            (''/home/u/.virtualenvs/proj'', Dir)]\<rparr>"

section \<open>Properties\<close>

subsection \<open>Splitting and formatting\<close>

lemma split_on_nonempty: "split_on d s \<noteq> []"
  by (induction s) (auto split: list.splits)

lemma length_split_on: "length (split_on d s) = Suc (count_list s d)"
  by (induction s) (auto split: list.splits simp: split_on_nonempty)

lemma collect_iff:
  "collect f xs = Inr ys \<longleftrightarrow>
     length ys = length xs \<and> (\<forall>i < length xs. f (xs ! i) = Inr (ys ! i))"
proof (induction xs arbitrary: ys)
  case Nil
  then show ?case by auto
next
  case (Cons x xs)
  show ?case
  proof (cases ys)
    case Nil
    then show ?thesis by (auto split: sum.splits)
  next
    case (Cons y ys')
    have "collect f (x # xs) = Inr (y # ys') \<longleftrightarrow> f x = Inr y \<and> collect f xs = Inr ys'"
      by (auto split: sum.splits)
    also have "\<dots> \<longleftrightarrow> f x = Inr y \<and> length ys' = length xs \<and>
        (\<forall>i < length xs. f (xs ! i) = Inr (ys' ! i))"
      by (simp add: Cons.IH)
    also have "\<dots> \<longleftrightarrow> length (y # ys') = length (x # xs) \<and>
        (\<forall>i < length (x # xs). f ((x # xs) ! i) = Inr ((y # ys') ! i))"
      by (auto simp: less_Suc_eq_0_disj)
    finally show ?thesis
      using Cons by simp
  qed
qed

lemma format_scan_field:
  "CHR ''}'' \<notin> set k \<Longrightarrow>
   format_scan kw (Some acc) (k @ ''}'' @ rest) =
     (case format_field kw (rev acc @ k) of
        Inl e \<Rightarrow> Inl e
      | Inr v \<Rightarrow> prepend v (format_scan kw None rest))"
  by (induction k arbitrary: acc) auto

lemma format_str_field:
  assumes "CHR ''}'' \<notin> set k" "k \<noteq> []" "hd k \<noteq> CHR ''{''"
  shows "format_str (''{'' @ k @ ''}'') kw = format_field kw k"
proof -
  obtain c cs where k: "k = c # cs" using assms(2) by (cases k) auto
  have "format_str (''{'' @ k @ ''}'') kw = format_scan kw (Some []) (k @ ''}'' @ [])"
    using assms(3) by (simp add: format_str_def k)
  also have "\<dots> = format_field kw k"
    using format_scan_field [OF assms(1), of kw "[]" "[]"]
    by (simp add: prepend_def split: sum.splits)
  finally show ?thesis .
qed

text \<open>
  Claim C9. command_list returns a list exactly when that list has one argument for each
  segment of the template split on single spaces, that is one more than the template
  has spaces, and each argument is its segment formatted with the substitution mapping.
  So the number of arguments does not depend on the mapping; and a segment that is one
  field \<open>{k}\<close> becomes the value of \<open>k\<close> unchanged, spaces included.
\<close>

theorem command_list_splits_first:
  "(command_list template kw = Inr args \<longleftrightarrow>
      length args = Suc (count_list template CHR '' '') \<and>
      (\<forall>i < length args. format_str (split_on CHR '' '' template ! i) kw = Inr (args ! i))) \<and>
   (command_list template kw = Inr args \<longrightarrow>
      (\<forall>i k v. i < length args \<and> split_on CHR '' '' template ! i = ''{'' @ k @ ''}'' \<and>
         k \<noteq> [] \<and> CHR ''}'' \<notin> set k \<and> hd k \<noteq> CHR ''{'' \<and> format_field kw k = Inr v
         \<longrightarrow> args ! i = v))"
proof (intro conjI impI allI)
  show "command_list template kw = Inr args \<longleftrightarrow>
      length args = Suc (count_list template CHR '' '') \<and>
      (\<forall>i < length args. format_str (split_on CHR '' '' template ! i) kw = Inr (args ! i))"
    unfolding command_list_def collect_iff length_split_on by auto
next
  fix i k v
  assume c: "command_list template kw = Inr args"
    and f: "i < length args \<and> split_on CHR '' '' template ! i = ''{'' @ k @ ''}'' \<and>
         k \<noteq> [] \<and> CHR ''}'' \<notin> set k \<and> hd k \<noteq> CHR ''{'' \<and> format_field kw k = Inr v"
  from c have len: "length args = length (split_on CHR '' '' template)"
    and nth: "\<forall>i < length (split_on CHR '' '' template).
                format_str (split_on CHR '' '' template ! i) kw = Inr (args ! i)"
    unfolding command_list_def collect_iff by blast+
  from f len have "i < length (split_on CHR '' '' template)"
    by simp
  with nth have "format_str (split_on CHR '' '' template ! i) kw = Inr (args ! i)"
    by blast
  moreover have "format_str (split_on CHR '' '' template ! i) kw = format_field kw k"
    using format_str_field [of k kw] f by simp
  ultimately show "args ! i = v"
    using f by simp
qed

text \<open>The third example of the docstring of command_list: a value with a space in it
  is one argument of two.\<close>

theorem command_list_splits_first_witness:
  "command_list ''echo {message}'' [(''message'', ''Hello, world.'')] =
     Inr [''echo'', ''Hello, world.''] \<and>
   length [''echo'', ''Hello, world.''] = Suc (count_list ''echo {message}'' CHR '' '')"
proof -
  have h: "command_list ''echo {message}'' [(''message'', ''Hello, world.'')] =
             Inr [''echo'', ''Hello, world.'']"
    by (simp add: command_list_def format_str_def format_field_def prepend_def is_digit_def)
  show ?thesis
    using h command_list_splits_first
      [of "''echo {message}''" "[(''message'', ''Hello, world.'')]" "[''echo'', ''Hello, world.'']"]
    by simp
qed

subsection \<open>Reading the configuration\<close>

lemma config_for_world: "snd (config_for ext env w) = w"
  by (auto simp: config_for_def Let_def bind_def read_file_def raise_def return_def
      split: option.splits node.splits)

lemma config_for_eq: "fst (config_for ext env w) = Inr cfg \<Longrightarrow> config_for ext env w = (Inr cfg, w)"
  using config_for_world [of ext env w] by (cases "config_for ext env w") simp

text \<open>
  Claim C6. config_for raises its own exception, which names the environment and the
  path it checked, exactly when nothing exists at the path of the environment's file in
  the configuration directory, and it leaves the world as it was; when a file is there,
  it returns what the loader makes of the file's content.
\<close>

theorem config_for_error_iff_missing:
  "((\<exists>p. fst (config_for ext env w) = Inl (ConfigNotFound env p)) \<longleftrightarrow>
      \<not> exists (config_path w env) w) \<and>
   (\<not> exists (config_path w env) w \<longrightarrow>
      config_for ext env w = (Inl (ConfigNotFound env (config_path w env)), w)) \<and>
   (\<forall>c cfg. map_of (files w) (config_path w env) = Some (File c) \<and> yaml_load ext c = Some cfg
      \<longrightarrow> config_for ext env w = (Inr cfg, w))"
  by (auto simp: config_for_def exists_def read_file_def bind_def raise_def return_def Let_def
      split: option.splits node.splits)

text \<open>An environment whose file is there, and one whose file is not.\<close>

theorem config_for_error_iff_missing_witness:
  "config_for demo_outside ''proj'' demo_world = (Inr demo_config, demo_world) \<and>
   config_for demo_outside ''gone'' demo_world =
     (Inl (ConfigNotFound ''gone'' ''/home/u/.tenper/gone.yml''), demo_world)"
proof -
  have a: "map_of (files demo_world) (config_path demo_world ''proj'') =
             Some (File ''session name: proj'')"
    by (simp add: demo_world_def config_path_def configs_def path_join_def)
  have b: "yaml_load demo_outside ''session name: proj'' = Some demo_config"
    by (simp add: demo_outside_def)
  have c: "\<not> exists (config_path demo_world ''gone'') demo_world"
    by (simp add: demo_world_def config_path_def configs_def path_join_def exists_def)
  have d: "config_path demo_world ''gone'' = ''/home/u/.tenper/gone.yml''"
    by (simp add: demo_world_def config_path_def configs_def path_join_def)
  show ?thesis
    using config_for_error_iff_missing [of demo_outside "''proj''" demo_world]
      config_for_error_iff_missing [of demo_outside "''gone''" demo_world] a b c d
    by simp
qed

subsection \<open>Completions\<close>

lemma completions_loop_eq:
  "completions_loop args fs =
     args @ map (\<lambda>f. take (length f - 4) f) (filter (\<lambda>f. endswith f ''.yml'') fs)"
  by (induction fs arbitrary: args) auto

text \<open>
  Claim C10. What completions prints is one line: the four subcommand names list, edit,
  rebuild, delete in that order, then the environment names of the configuration
  directory, all joined by single spaces; without a configuration directory the line is
  the four subcommand names alone.
\<close>

theorem completions_output:
  "(fst (completions w) = Inr () \<longrightarrow>
      stdout (snd (completions w)) =
        stdout w @
        [join_with '' '' ([''list'', ''edit'', ''rebuild'', ''delete''] @ environment_names w)]) \<and>
   (\<not> exists (configs w) w \<longrightarrow>
      completions w = (Inr (), w\<lparr>stdout := stdout w @ [''list edit rebuild delete'']\<rparr>))"
  by (auto simp: completions_def environment_names_def listdir_def bind_def print_def
      completions_loop_eq exists_def Let_def split: option.splits node.splits)

text \<open>A configuration directory with two environments and a file that is none, and a
  file system without the directory.\<close>

theorem completions_output_witness:
  "stdout (snd (completions demo_world)) = [''list edit rebuild delete proj site''] \<and>
   completions (demo_world\<lparr>files := []\<rparr>) =
     (Inr (), demo_world\<lparr>files := [], stdout := [''list edit rebuild delete'']\<rparr>)"
proof -
  have a: "fst (completions demo_world) = Inr ()"
    by code_simp
  have b: "environment_names demo_world = [''proj'', ''site'']"
    by code_simp
  have c: "\<not> exists (configs (demo_world\<lparr>files := []\<rparr>)) (demo_world\<lparr>files := []\<rparr>)"
    by (simp add: exists_def)
  show ?thesis
    using completions_output [of demo_world] completions_output [of "demo_world\<lparr>files := []\<rparr>"]
      a b c
    by (simp add: demo_world_def)
qed

subsection \<open>Dispatch\<close>

text \<open>The dispatch of one argument, and of a subcommand with a project that is not
  called list or completions.\<close>

lemma parse_args_one:
  "a \<noteq> [] \<Longrightarrow> hd a \<noteq> CHR ''-'' \<Longrightarrow>
   parse_args [a] =
     Inr (if a = ''list'' then Handler_list_envs
          else if a = ''completions'' then Handler_completions else Handler_start, Some a)"
  by (simp add: parse_args_def argparse_def)

lemma parse_args_two:
  "c \<in> {''edit'', ''rebuild'', ''delete''} \<Longrightarrow> p \<noteq> [] \<Longrightarrow> hd p \<noteq> CHR ''-'' \<Longrightarrow>
   p \<noteq> ''list'' \<Longrightarrow> p \<noteq> ''completions'' \<Longrightarrow>
   parse_args [c, p] =
     Inr (if c = ''edit'' then Handler_edit
          else if c = ''rebuild'' then Handler_rebuild else Handler_delete, Some p)"
  by (auto simp: parse_args_def argparse_def globals_lookup_def)

text \<open>
  Claim C8. The subcommand edit with a project name is to reach the handler edit. For
  the project name list it reaches the listing handler: parse_args compares the project
  name with list before it looks at the subcommand.
\<close>

theorem parse_args_edit_list:
  "parse_args [''edit'', ''list''] = Inr (Handler_list_envs, Some ''list'')"
  by (simp add: parse_args_def argparse_def)

subsection \<open>Rebuilding and deleting\<close>

text \<open>
  Claim C4. rebuild of an environment whose configuration asks for a virtualenv is not
  to fail when no virtualenv is there yet. On the code it does: with the configuration
  read and nothing at the virtualenv's path, rebuild ends in the OSError of
  \<open>shutil.rmtree\<close>, before any command is issued and with the world as it was.
\<close>

theorem rebuild_without_virtualenv:
  assumes "fst (config_for ext env w) = Inr cfg"
    and "requests_virtualenv cfg"
    and "\<not> exists (virtualenv_dir ext w cfg (the (virtualenv cfg))) w"
  shows "rebuild ext env w = (Inl OSError, w)"
proof -
  have "config_for ext env w = (Inr cfg, w)"
    using assms(1) by (rule config_for_eq)
  moreover have "confirm_virtualenv ext cfg True w = (Inl OSError, w)"
    using assms(2,3)
    by (simp add: confirm_virtualenv_def Let_def next_do_def bind_def rmtree_def exists_def)
  ultimately show ?thesis
    by (simp add: rebuild_def bind_def)
qed

text \<open>The concrete project: its configuration file is there, its virtualenv is not.\<close>

theorem rebuild_without_virtualenv_witness:
  "rebuild demo_outside ''proj'' demo_world = (Inl OSError, demo_world)"
proof -
  have a: "fst (config_for demo_outside ''proj'' demo_world) = Inr demo_config"
    by code_simp
  have b: "requests_virtualenv demo_config"
    by code_simp
  have c: "\<not> exists (virtualenv_dir demo_outside demo_world demo_config
                      (the (virtualenv demo_config))) demo_world"
    by code_simp
  show ?thesis
    using rebuild_without_virtualenv [OF a b c] .
qed

text \<open>
  Claim C5, as stated, fails: the virtualenv is there, the user answers \<open>n\<close>, and
  delete still removes the configuration file.
\<close>

theorem delete_declined_counterexample:
  "exists (path_join (virtualenvs demo_world_venv) ''proj'') demo_world_venv \<and>
   stdin demo_world_venv = [''n''] \<and> \<not> affirmative ''n'' \<and>
   fst (delete ''proj'' demo_world_venv) = Inr () \<and>
   exists ''/home/u/.tenper/proj.yml'' demo_world_venv \<and>
   \<not> exists ''/home/u/.tenper/proj.yml'' (snd (delete ''proj'' demo_world_venv))"
  by (simp add: delete_def demo_world_venv_def demo_world_def configs_def virtualenvs_def
      path_join_def exists_def bind_def next_do_def return_def ask_def affirmative_def
      strip_def is_space_def remove_file_def print_def try_rmdir_def rmdir_def
      dir_prefix_def path_under_def)


lemma map_of_filter_neq:
  "map_of (filter (\<lambda>(q, _). q \<noteq> p) xs) k = (if k = p then None else map_of xs k)"
  by (induction xs) auto

lemma list_ex_filter: "list_ex P (filter Q xs) = list_ex (\<lambda>x. Q x \<and> P x) xs"
  by (induction xs) auto

lemma try_rmdir_lookup:
  "\<exists>w'. try_rmdir d w = (Inr (), w') \<and> stdin w' = stdin w \<and> issued w' = issued w \<and>
        (\<forall>p. map_of (files w') p =
           (if p = d \<and> map_of (files w) d = Some Dir \<and>
               \<not> list_ex (\<lambda>(q, _). path_under d q) (files w)
            then None else map_of (files w) p))"
  by (auto simp: try_rmdir_def rmdir_def map_of_filter_neq split: option.splits node.splits)

lemma config_path_not_configs: "config_path w env \<noteq> configs w"
proof -
  have "last (config_path w env) = CHR ''l''" and "last (configs w) = CHR ''r''"
    by (simp_all add: config_path_def configs_def path_join_def)
  then show ?thesis by auto
qed

lemma virtualenv_not_config_path: "path_join (virtualenvs w) env \<noteq> config_path w env"
proof (cases "env \<noteq> [] \<and> hd env = CHR ''/''")
  case True
  then have "path_join (virtualenvs w) env = env" and "config_path w env = env @ ''.yml''"
    by (auto simp: path_join_def config_path_def)
  then show ?thesis by simp
next
  case False
  then have rel: "\<not> (env @ ''.yml'' \<noteq> [] \<and> hd (env @ ''.yml'') = CHR ''/'')"
    by (cases env) auto
  define x where "x = (if home w = [] \<or> last (home w) = CHR ''/'' then home w else home w @ ''/'')"
  have v: "path_join (virtualenvs w) env = x @ ''.virtualenvs/'' @ env"
    using False by (auto simp: path_join_def virtualenvs_def x_def)
  have c: "config_path w env = x @ ''.tenper/'' @ env @ ''.yml''"
    using rel by (auto simp: path_join_def config_path_def configs_def x_def)
  show ?thesis
    unfolding v c by simp
qed

text \<open>
  Claim C5, amended. delete asks about an existing virtualenv and the answer is not an
  affirmative one. Then no external command is issued and the virtualenv is not removed,
  but the configuration file is. If the environment's configuration file is there,
  delete ends normally, and afterwards the configuration file is gone, the configuration
  directory is gone exactly when it was a directory with nothing but that file under
  it, and every other path is as it was. If the configuration file is not there, delete
  ends in the OSError of \<open>os.remove\<close> and the file system is as it was. In both
  cases the virtualenv directory is still there, unless it is the configuration
  directory itself.
\<close>

theorem delete_declined_keeps_virtualenv:
  assumes "exists (path_join (virtualenvs w) env) w"
    and "stdin w = resp # later"
    and "\<not> affirmative resp"
  shows "((\<exists>c. map_of (files w) (config_path w env) = Some (File c)) \<longrightarrow>
            fst (delete env w) = Inr () \<and>
            (\<forall>p. map_of (files (snd (delete env w))) p =
               (if p = config_path w env \<or>
                   (p = configs w \<and> map_of (files w) (configs w) = Some Dir \<and>
                    only_entry_under (configs w) (config_path w env) w)
                then None else map_of (files w) p))) \<and>
         ((\<forall>c. map_of (files w) (config_path w env) \<noteq> Some (File c)) \<longrightarrow>
            fst (delete env w) = Inl OSError \<and> files (snd (delete env w)) = files w) \<and>
         (path_join (virtualenvs w) env \<noteq> configs w \<longrightarrow>
            exists (path_join (virtualenvs w) env) (snd (delete env w))) \<and>
         issued (snd (delete env w)) = issued w \<and>
         stdin (snd (delete env w)) = later"
proof -
  let ?cf = "config_path w env"
  let ?venv = "path_join (virtualenvs w) env"
  let ?w1 = "w\<lparr>stdin := later\<rparr>"
  have asked: "delete env w =
      next_do (remove_file ?cf)
        (next_do (print (''Removed '' @ ?cf @ ''.'')) (try_rmdir (configs w))) ?w1"
    using assms
    by (simp add: delete_def Let_def next_do_def bind_def ask_def return_def config_path_def)
  show ?thesis
  proof (cases "\<exists>c. map_of (files w) ?cf = Some (File c)")
    case True
    then obtain c where c: "map_of (files w) ?cf = Some (File c)" ..
    let ?w2 = "?w1\<lparr>files := filter (\<lambda>(q, _). q \<noteq> ?cf) (files ?w1)\<rparr>"
    let ?w3 = "?w2\<lparr>stdout := stdout ?w2 @ [''Removed '' @ ?cf @ ''.'']\<rparr>"
    obtain w' where w': "try_rmdir (configs w) ?w3 = (Inr (), w')"
      and look: "\<forall>p. map_of (files w') p =
           (if p = configs w \<and> map_of (files ?w3) (configs w) = Some Dir \<and>
               \<not> list_ex (\<lambda>(q, _). path_under (configs w) q) (files ?w3)
            then None else map_of (files ?w3) p)"
      and iss: "issued w' = issued ?w3" and inp: "stdin w' = stdin ?w3"
      using try_rmdir_lookup [of "configs w" ?w3] by blast
    have run: "delete env w = (Inr (), w')"
      using c w' by (simp add: asked next_do_def bind_def remove_file_def print_def)
    have ex: "list_ex (\<lambda>(q, _). path_under (configs w) q)
                (filter (\<lambda>(q, _). q \<noteq> ?cf) (files w)) =
              (\<not> only_entry_under (configs w) ?cf w)"
      by (auto simp: only_entry_under_def list_ex_filter list_ex_iff)
    have fs: "map_of (files w') p =
               (if p = ?cf \<or>
                   (p = configs w \<and> map_of (files w) (configs w) = Some Dir \<and>
                    only_entry_under (configs w) ?cf w)
                then None else map_of (files w) p)" for p
      using look config_path_not_configs [of w env]
      by (auto simp: ex map_of_filter_neq)
    have "exists ?venv w'" if "?venv \<noteq> configs w"
      using assms(1) that virtualenv_not_config_path [of w env]
      by (simp add: exists_def fs)
    then show ?thesis
      using True run fs iss inp by simp
  next
    case False
    then have "delete env w = (Inl OSError, ?w1)"
      by (auto simp: asked next_do_def bind_def remove_file_def
          split: option.splits node.splits)
    then show ?thesis
      using False assms(1) by (simp add: exists_def)
  qed
qed

text \<open>The answer \<open>n\<close> in three homes. With other files in the configuration
  directory the project's file goes and the directory stays; with the project's file
  alone in it both go; without the project's file delete fails and nothing changes. The
  virtualenv stays in all of them.\<close>

theorem delete_declined_keeps_virtualenv_witness:
  "(fst (delete ''proj'' demo_world_venv) = Inr () \<and>
    map_of (files (snd (delete ''proj'' demo_world_venv))) ''/home/u/.tenper/proj.yml'' = None \<and>
    map_of (files (snd (delete ''proj'' demo_world_venv))) ''/home/u/.tenper'' = Some Dir \<and>
    map_of (files (snd (delete ''proj'' demo_world_venv))) ''/home/u/.virtualenvs/proj'' =
      Some Dir) \<and>
   (fst (delete ''proj'' demo_world_single) = Inr () \<and>
    map_of (files (snd (delete ''proj'' demo_world_single))) ''/home/u/.tenper/proj.yml'' = None \<and>
    map_of (files (snd (delete ''proj'' demo_world_single))) ''/home/u/.tenper'' = None \<and>
    map_of (files (snd (delete ''proj'' demo_world_single))) ''/home/u/.virtualenvs/proj'' =
      Some Dir) \<and>
   (fst (delete ''proj'' demo_world_orphan) = Inl OSError \<and>
    files (snd (delete ''proj'' demo_world_orphan)) = files demo_world_orphan)"
proof -
  have n: "\<not> affirmative ''n''"
    by code_simp
  have a1: "exists (path_join (virtualenvs demo_world_venv) ''proj'') demo_world_venv"
    and a2: "exists (path_join (virtualenvs demo_world_single) ''proj'') demo_world_single"
    and a3: "exists (path_join (virtualenvs demo_world_orphan) ''proj'') demo_world_orphan"
    by code_simp+
  have b1: "stdin demo_world_venv = ''n'' # []"
    and b2: "stdin demo_world_single = ''n'' # []"
    and b3: "stdin demo_world_orphan = ''n'' # []"
    by (simp_all add: demo_world_venv_def demo_world_single_def demo_world_orphan_def
        demo_world_def)
  have p1: "config_path demo_world_venv ''proj'' = ''/home/u/.tenper/proj.yml''"
    "configs demo_world_venv = ''/home/u/.tenper''"
    "map_of (files demo_world_venv) ''/home/u/.tenper/proj.yml'' =
       Some (File ''session name: proj'')"
    "map_of (files demo_world_venv) ''/home/u/.tenper'' = Some Dir"
    "map_of (files demo_world_venv) ''/home/u/.virtualenvs/proj'' = Some Dir"
    "\<not> only_entry_under ''/home/u/.tenper'' ''/home/u/.tenper/proj.yml'' demo_world_venv"
    by code_simp+
  have p2: "config_path demo_world_single ''proj'' = ''/home/u/.tenper/proj.yml''"
    "configs demo_world_single = ''/home/u/.tenper''"
    "map_of (files demo_world_single) ''/home/u/.tenper/proj.yml'' =
       Some (File ''session name: proj'')"
    "map_of (files demo_world_single) ''/home/u/.tenper'' = Some Dir"
    "map_of (files demo_world_single) ''/home/u/.virtualenvs/proj'' = Some Dir"
    "only_entry_under ''/home/u/.tenper'' ''/home/u/.tenper/proj.yml'' demo_world_single"
    by code_simp+
  have p3: "config_path demo_world_orphan ''proj'' = ''/home/u/.tenper/proj.yml''"
    "map_of (files demo_world_orphan) ''/home/u/.tenper/proj.yml'' = None"
    by code_simp+
  show ?thesis
    using delete_declined_keeps_virtualenv [OF a1 b1 n]
      delete_declined_keeps_virtualenv [OF a2 b2 n]
      delete_declined_keeps_virtualenv [OF a3 b3 n]
    by (simp add: p1 p2 p3)
qed

subsection \<open>The commands behind the templates\<close>

lemma command_list_templates:
  "command_list ''virtualenv -p {python_binary} {site_packages} {dir}''
     [(''python_binary'', a), (''site_packages'', b), (''dir'', c)] =
     Inr [''virtualenv'', ''-p'', a, b, c]"
  "command_list ''tmux has-session -t {session}'' [(''session'', s)] =
     Inr [''tmux'', ''has-session'', ''-t'', s]"
  "command_list ''tmux -2 attach-session -t {session}'' [(''session'', s)] =
     Inr [''tmux'', ''-2'', ''attach-session'', ''-t'', s]"
  "command_list ''tmux new-session -d -s {session}'' [(''session'', s)] =
     Inr [''tmux'', ''new-session'', ''-d'', ''-s'', s]"
  "command_list ''tmux set-option -t {session} default-path {path}''
     [(''session'', s), (''path'', p)] =
     Inr [''tmux'', ''set-option'', ''-t'', s, ''default-path'', p]"
  "command_list ''tmux set-option -t {session} status-left-length {length}''
     [(''session'', s), (''length'', l)] =
     Inr [''tmux'', ''set-option'', ''-t'', s, ''status-left-length'', l]"
  "command_list ''tmux set-environment -t {session} {key} {value}''
     [(''session'', s), (''key'', k), (''value'', v)] =
     Inr [''tmux'', ''set-environment'', ''-t'', s, k, v]"
  "command_list ''tmux new-window -d -t {temp_target} -n {name}''
     [(''temp_target'', t), (''name'', n)] =
     Inr [''tmux'', ''new-window'', ''-d'', ''-t'', t, ''-n'', n]"
  "command_list ''tmux kill-window -t {base_target}'' [(''base_target'', t)] =
     Inr [''tmux'', ''kill-window'', ''-t'', t]"
  "command_list ''tmux move-window -s {temp_target} -t {base_target}''
     [(''temp_target'', t), (''base_target'', u)] =
     Inr [''tmux'', ''move-window'', ''-s'', t, ''-t'', u]"
  "command_list ''tmux new-window -d -t {window_target} -n {name}''
     [(''window_target'', t), (''name'', n)] =
     Inr [''tmux'', ''new-window'', ''-d'', ''-t'', t, ''-n'', n]"
  "command_list ''tmux split-window -t {window_target}.0'' [(''window_target'', t)] =
     Inr [''tmux'', ''split-window'', ''-t'', t @ ''.0'']"
  "command_list ''tmux send-keys -t {pane_target} {command} ENTER''
     [(''pane_target'', t), (''command'', c)] =
     Inr [''tmux'', ''send-keys'', ''-t'', t, c, ''ENTER'']"
  "command_list ''tmux select-layout -t {window_target} {layout}''
     [(''window_target'', t), (''layout'', l)] =
     Inr [''tmux'', ''select-layout'', ''-t'', t, l]"
  "command_list ''tmux select-pane -t {window_target}.{base_pindex}''
     [(''window_target'', t), (''base_pindex'', i)] =
     Inr [''tmux'', ''select-pane'', ''-t'', t @ ''.'' @ i]"
  by (simp_all add: command_list_def format_str_def format_field_def prepend_def is_digit_def)

subsection \<open>Statements that end normally\<close>

lemma return_ok: "return a w = (Inr b, w') \<Longrightarrow> b = a \<and> w' = w"
  by (simp add: return_def)

lemma bind_ok:
  "bind m f w = (Inr b, w') \<Longrightarrow> \<exists>a w1. m w = (Inr a, w1) \<and> f a w1 = (Inr b, w')"
  by (auto simp: bind_def split: prod.splits sum.splits)

lemma next_do_ok:
  "next_do m n w = (Inr b, w') \<Longrightarrow> \<exists>a w1. m w = (Inr a, w1) \<and> n w1 = (Inr b, w')"
  by (auto simp: next_do_def dest: bind_ok)

lemma run_ok:
  "run ext cmd kw w = (Inr rc, w') \<Longrightarrow> command_list cmd kw = Inr argv \<Longrightarrow>
   w' = w\<lparr>issued := issued w @ [Exec argv]\<rparr> \<and> spawn ext (issued w) argv = Some rc"
  by (auto simp: run_def split: option.splits)

lemma call_ok:
  "call ext cmd kw w = (Inr u, w') \<Longrightarrow> command_list cmd kw = Inr argv \<Longrightarrow>
   w' = w\<lparr>issued := issued w @ [Exec argv]\<rparr>"
  by (auto simp: call_def return_def dest!: bind_ok dest: run_ok)

lemma first_index_ok:
  "first_index ext cmd w = (Inr b, w') \<Longrightarrow> w' = w\<lparr>issued := issued w @ [Shell cmd]\<rparr>"
  by (auto simp: first_index_def check_output_def lift_def dest!: bind_ok
      split: prod.splits if_splits)

subsection \<open>The loops of start, when they end normally\<close>

lemma pane_body_ok:
  assumes "pane_body ext target bp vpath pindex pane w = (Inr u, w')"
  shows "w' = w\<lparr>issued := issued w @ pane_commands target bp vpath (pindex, pane)\<rparr>"
proof -
  let ?pt = "target @ ''.'' @ str_int (bp + int pindex)"
  from assms obtain w1 w2 where
    s1: "(if pindex \<noteq> 0
          then call ext ''tmux split-window -t {window_target}.0'' [(''window_target'', target)]
          else return ()) w = (Inr (), w1)"
    and s2: "(case vpath of
                Some vp \<Rightarrow> call ext ''tmux send-keys -t {pane_target} {command} ENTER''
                            [(''pane_target'', ?pt), (''command'', ''source '' @ vp)]
              | None \<Rightarrow> return ()) w1 = (Inr (), w2)"
    and s3: "(if truthy pane
              then call ext ''tmux send-keys -t {pane_target} {command} ENTER''
                     [(''pane_target'', ?pt), (''command'', the pane)]
              else return ()) w2 = (Inr u, w')"
    unfolding pane_body_def Let_def
    by (auto dest!: next_do_ok)
  have e1: "w1 = w\<lparr>issued := issued w @
              (if pindex = 0 then [] else [tmux [''split-window'', ''-t'', target @ ''.0'']])\<rparr>"
    using s1 by (auto simp: tmux_def command_list_templates dest: return_ok call_ok
        split: if_splits)
  have e2: "w2 = w1\<lparr>issued := issued w1 @
              (case vpath of None \<Rightarrow> []
               | Some vp \<Rightarrow> [tmux [''send-keys'', ''-t'', ?pt, ''source '' @ vp, ''ENTER'']])\<rparr>"
    using s2 by (auto simp: tmux_def command_list_templates dest: return_ok call_ok
        split: option.splits)
  have e3: "w' = w2\<lparr>issued := issued w2 @
              (if truthy pane then [tmux [''send-keys'', ''-t'', ?pt, the pane, ''ENTER'']]
               else [])\<rparr>"
    using s3 by (auto simp: tmux_def command_list_templates dest: return_ok call_ok
        split: if_splits)
  show ?thesis
    unfolding e3 e2 e1 by (simp add: pane_commands_def)
qed

lemma pane_loop_ok:
  "pane_loop ext target bp vpath pindex ps w = (Inr u, w') \<Longrightarrow>
   w' = w\<lparr>issued := issued w @
          concat (map (pane_commands target bp vpath) (enumerate pindex ps))\<rparr>"
proof (induction ps arbitrary: pindex w)
  case Nil
  then show ?case by (simp add: return_def)
next
  case (Cons pane ps)
  from Cons.prems obtain w1 where
    b: "pane_body ext target bp vpath pindex pane w = (Inr (), w1)"
    and l: "pane_loop ext target bp vpath (Suc pindex) ps w1 = (Inr u, w')"
    by (auto dest!: next_do_ok)
  show ?case
    unfolding Cons.IH [OF l] pane_body_ok [OF b] by simp
qed

lemma window_body_ok:
  assumes "window_body ext session base_index vpath index win w = (Inr u, w')"
  shows "\<exists>bp. w' = w\<lparr>issued := issued w @
                      window_commands session base_index vpath ((index, win), bp)\<rparr>"
proof -
  let ?target = "session @ '':'' @ str_int (base_index + int index)"
  let ?base = "session @ '':'' @ str_int base_index"
  let ?temp = "session @ '':'' @ str_int (base_index + 1)"
  from assms obtain w1 w2 w3 w4 bp where
    s1: "(if index = 0 then
            next_do
              (call ext ''tmux new-window -d -t {temp_target} -n {name}''
                 [(''temp_target'', ?temp), (''name'', wname win)])
              (next_do
                 (call ext ''tmux kill-window -t {base_target}'' [(''base_target'', ?base)])
                 (call ext ''tmux move-window -s {temp_target} -t {base_target}''
                    [(''temp_target'', ?temp), (''base_target'', ?base)]))
          else call ext ''tmux new-window -d -t {window_target} -n {name}''
                 [(''window_target'', ?target), (''name'', wname win)]) w = (Inr (), w1)"
    and s2: "first_index ext (''tmux list-panes -t '' @ ?target) w1 = (Inr bp, w2)"
    and s3: "pane_loop ext ?target bp vpath 0 (panes win) w2 = (Inr (), w3)"
    and s4: "(if truthy (layout win)
              then call ext ''tmux select-layout -t {window_target} {layout}''
                     [(''window_target'', ?target), (''layout'', the (layout win))]
              else return ()) w3 = (Inr (), w4)"
    and s5: "call ext ''tmux select-pane -t {window_target}.{base_pindex}''
               [(''window_target'', ?target), (''base_pindex'', str_int bp)] w4 = (Inr u, w')"
    unfolding window_body_def Let_def
    by (auto dest!: next_do_ok bind_ok)
  have e1: "w1 = w\<lparr>issued := issued w @
              (if index = 0
               then [tmux [''new-window'', ''-d'', ''-t'', ?temp, ''-n'', wname win],
                     tmux [''kill-window'', ''-t'', ?base],
                     tmux [''move-window'', ''-s'', ?temp, ''-t'', ?base]]
               else [tmux [''new-window'', ''-d'', ''-t'', ?target, ''-n'', wname win]])\<rparr>"
  proof (cases "index = 0")
    case True
    with s1 obtain v1 v2 where
      "call ext ''tmux new-window -d -t {temp_target} -n {name}''
         [(''temp_target'', ?temp), (''name'', wname win)] w = (Inr (), v1)"
      "call ext ''tmux kill-window -t {base_target}'' [(''base_target'', ?base)] v1 = (Inr (), v2)"
      "call ext ''tmux move-window -s {temp_target} -t {base_target}''
         [(''temp_target'', ?temp), (''base_target'', ?base)] v2 = (Inr (), w1)"
      by (auto dest!: next_do_ok)
    then show ?thesis
      using True by (auto simp: tmux_def command_list_templates dest!: call_ok)
  next
    case False
    with s1 show ?thesis
      by (auto simp: tmux_def command_list_templates dest!: call_ok)
  qed
  have e4: "w4 = w3\<lparr>issued := issued w3 @
              (if truthy (layout win)
               then [tmux [''select-layout'', ''-t'', ?target, the (layout win)]] else [])\<rparr>"
    using s4 by (auto simp: tmux_def command_list_templates dest: return_ok call_ok
        split: if_splits)
  have e5: "w' = w4\<lparr>issued := issued w4 @
              [tmux [''select-pane'', ''-t'', ?target @ ''.'' @ str_int bp]]\<rparr>"
    using s5 by (auto simp: tmux_def command_list_templates dest: call_ok)
  have "w' = w\<lparr>issued := issued w @
                window_commands session base_index vpath ((index, win), bp)\<rparr>"
    unfolding e5 e4 pane_loop_ok [OF s3] first_index_ok [OF s2] e1
    by (simp add: window_commands_def Let_def)
  then show ?thesis ..
qed

lemma window_loop_ok:
  "window_loop ext session base_index vpath index wins w = (Inr u, w') \<Longrightarrow>
   \<exists>bps. length bps = length wins \<and>
     w' = w\<lparr>issued := issued w @
            concat (map (window_commands session base_index vpath)
                      (zip (enumerate index wins) bps))\<rparr>"
proof (induction wins arbitrary: index w)
  case Nil
  then show ?case by (simp add: return_def)
next
  case (Cons win wins)
  from Cons.prems obtain w1 where
    b: "window_body ext session base_index vpath index win w = (Inr (), w1)"
    and l: "window_loop ext session base_index vpath (Suc index) wins w1 = (Inr u, w')"
    by (auto dest!: next_do_ok)
  from window_body_ok [OF b] obtain bp where
    e1: "w1 = w\<lparr>issued := issued w @
                 window_commands session base_index vpath ((index, win), bp)\<rparr>" ..
  from Cons.IH [OF l] obtain bps where
    len: "length bps = length wins"
    and e2: "w' = w1\<lparr>issued := issued w1 @
                    concat (map (window_commands session base_index vpath)
                              (zip (enumerate (Suc index) wins) bps))\<rparr>"
    by blast
  have "length (bp # bps) = length (win # wins)"
    using len by simp
  moreover have "w' = w\<lparr>issued := issued w @
                   concat (map (window_commands session base_index vpath)
                             (zip (enumerate index (win # wins)) (bp # bps)))\<rparr>"
    unfolding e2 e1 by simp
  ultimately show ?case by blast
qed

lemma environment_loop_ok:
  "environment_loop ext session kvs w = (Inr u, w') \<Longrightarrow>
   w' = w\<lparr>issued := issued w @
          map (\<lambda>(k, v). tmux [''set-environment'', ''-t'', session, k,
                               sub_refs (environ w) None v]) kvs\<rparr>"
proof (induction kvs arbitrary: w)
  case Nil
  then show ?case by (simp add: return_def)
next
  case (Cons kv kvs)
  obtain k v where kv: "kv = (k, v)" by (cases kv)
  from Cons.prems obtain w1 where
    c: "call ext ''tmux set-environment -t {session} {key} {value}''
          [(''session'', session), (''key'', k), (''value'', sub_refs (environ w) None v)] w =
        (Inr (), w1)"
    and l: "environment_loop ext session kvs w1 = (Inr u, w')"
    unfolding kv by (auto dest!: next_do_ok)
  have e1: "w1 = w\<lparr>issued := issued w @
              [tmux [''set-environment'', ''-t'', session, k, sub_refs (environ w) None v]]\<rparr>"
    using c by (auto simp: tmux_def command_list_templates dest: call_ok)
  show ?case
    unfolding Cons.IH [OF l] e1 kv by simp
qed

subsection \<open>start\<close>

lemma call_cases:
  "command_list cmd kw = Inr argv \<Longrightarrow>
   call ext cmd kw w = (Inr (), w\<lparr>issued := issued w @ [Exec argv]\<rparr>) \<or>
   call ext cmd kw w = (Inl OSError, w\<lparr>issued := issued w @ [Exec argv]\<rparr>)"
  by (auto simp: call_def run_def bind_def return_def split: option.splits)

lemma virtualenv_template:
  "command_list ''virtualenv -p {python_binary} {site_packages} {dir}''
     (virtualenv_kwargs v dir) =
   Inr [''virtualenv'', ''-p'',
        (case python_binary v of None \<Rightarrow> ''/usr/bin/python'' | Some b \<Rightarrow> b),
        (if site_packages v = Some True then ''--system-site-packages''
         else ''--no-site-packages''), dir]"
  unfolding virtualenv_kwargs_def by (rule command_list_templates)

lemma confirm_virtualenv_unfold:
  "confirm_virtualenv ext cfg False w =
     (if requests_virtualenv cfg \<and> \<not> exists (virtualenv_dir ext w cfg (the (virtualenv cfg))) w
      then call ext ''virtualenv -p {python_binary} {site_packages} {dir}''
             (virtualenv_kwargs (the (virtualenv cfg))
                (virtualenv_dir ext w cfg (the (virtualenv cfg)))) w
      else (Inr (), w))"
  by (auto simp: confirm_virtualenv_def Let_def next_do_def bind_def return_def)

lemma confirm_virtualenv_start:
  "confirm_virtualenv ext cfg False w =
     (Inr (), w\<lparr>issued := issued w @ provision_commands ext w cfg\<rparr>) \<or>
   confirm_virtualenv ext cfg False w =
     (Inl OSError, w\<lparr>issued := issued w @ provision_commands ext w cfg\<rparr>)"
proof (cases "requests_virtualenv cfg \<and>
    \<not> exists (virtualenv_dir ext w cfg (the (virtualenv cfg))) w")
  case True
  then show ?thesis
    using call_cases [OF virtualenv_template, of ext "the (virtualenv cfg)"
        "virtualenv_dir ext w cfg (the (virtualenv cfg))" w]
    by (simp add: confirm_virtualenv_unfold provision_commands_def virtualenv_command_def)
next
  case False
  then show ?thesis
    by (auto simp: confirm_virtualenv_unfold provision_commands_def)
qed

text \<open>start, once the configuration is read: the control flow of the source with the
  world after each step named.\<close>

lemma start_unfold:
  assumes "fst (config_for ext env w) = Inr cfg"
  shows "start ext env w =
     (case confirm_virtualenv ext cfg False w of
        (Inl e, w1) \<Rightarrow> (Inl e, w1)
      | (Inr _, w1) \<Rightarrow>
          (case run ext ''tmux has-session -t {session}'' [(''session'', session_name cfg)] w1 of
             (Inl e, w2) \<Rightarrow> (Inl e, w2)
           | (Inr rc, w2) \<Rightarrow>
               if rc = 0 then
                 next_do (ask ''Session already exists: attaching. (Press any key to continue.)'')
                   (call ext ''tmux -2 attach-session -t {session}''
                      [(''session'', session_name cfg)]) w2
               else build_session ext cfg (virtualenv_path ext w1 cfg) w2))"
  using config_for_eq [OF assms]
  by (simp add: start_def bind_def next_do_def Let_def split: prod.splits sum.splits)

lemma build_session_ok:
  assumes "build_session ext cfg vpath w = (Inr u, w')"
  shows "\<exists>b bps. length bps = length (windows cfg) \<and>
     w' = w\<lparr>issued := issued w @
       [tmux [''new-session'', ''-d'', ''-s'', session_name cfg],
        tmux [''set-option'', ''-t'', session_name cfg, ''default-path'',
              expandvars ext (project_root cfg)],
        tmux [''set-option'', ''-t'', session_name cfg, ''status-left-length'',
              str_int (int (length (session_name cfg)) + 2)]] @
       map (\<lambda>(k, v). tmux [''set-environment'', ''-t'', session_name cfg, k,
                            sub_refs (environ w) None v])
         (case environment cfg of None \<Rightarrow> [] | Some kvs \<Rightarrow> kvs) @
       [Shell (''tmux list-windows -t '' @ session_name cfg)] @
       concat (map (window_commands (session_name cfg) b vpath)
                 (zip (enumerate 0 (windows cfg)) bps)) @
       [attach_session cfg]\<rparr>"
proof -
  let ?s = "session_name cfg"
  from assms obtain w1 w2 w3 w4 w5 w6 b where
    s1: "call ext ''tmux new-session -d -s {session}'' [(''session'', ?s)] w = (Inr (), w1)"
    and s2: "call ext ''tmux set-option -t {session} default-path {path}''
               [(''session'', ?s), (''path'', expandvars ext (project_root cfg))] w1 =
             (Inr (), w2)"
    and s3: "call ext ''tmux set-option -t {session} status-left-length {length}''
               [(''session'', ?s), (''length'', str_int (int (length ?s) + 2))] w2 =
             (Inr (), w3)"
    and s4: "(case environment cfg of
                None \<Rightarrow> return ()
              | Some kvs \<Rightarrow> environment_loop ext ?s kvs) w3 = (Inr (), w4)"
    and s5: "first_index ext (''tmux list-windows -t '' @ ?s) w4 = (Inr b, w5)"
    and s6: "window_loop ext ?s b vpath 0 (windows cfg) w5 = (Inr (), w6)"
    and s7: "call ext ''tmux -2 attach-session -t {session}'' [(''session'', ?s)] w6 =
             (Inr u, w')"
    unfolding build_session_def Let_def
    by (auto dest!: next_do_ok bind_ok)
  from window_loop_ok [OF s6] obtain bps where
    len: "length bps = length (windows cfg)"
    and e6: "w6 = w5\<lparr>issued := issued w5 @
                    concat (map (window_commands ?s b vpath)
                              (zip (enumerate 0 (windows cfg)) bps))\<rparr>"
    by blast
  have e1: "w1 = w\<lparr>issued := issued w @ [tmux [''new-session'', ''-d'', ''-s'', ?s]]\<rparr>"
    using s1 by (auto simp: tmux_def command_list_templates dest: call_ok)
  have e2: "w2 = w1\<lparr>issued := issued w1 @
              [tmux [''set-option'', ''-t'', ?s, ''default-path'',
                     expandvars ext (project_root cfg)]]\<rparr>"
    using s2 by (auto simp: tmux_def command_list_templates dest: call_ok)
  have e3: "w3 = w2\<lparr>issued := issued w2 @
              [tmux [''set-option'', ''-t'', ?s, ''status-left-length'',
                     str_int (int (length ?s) + 2)]]\<rparr>"
    using s3 by (auto simp: tmux_def command_list_templates dest: call_ok)
  have e4: "w4 = w3\<lparr>issued := issued w3 @
              map (\<lambda>(k, v). tmux [''set-environment'', ''-t'', ?s, k,
                                   sub_refs (environ w3) None v])
                (case environment cfg of None \<Rightarrow> [] | Some kvs \<Rightarrow> kvs)\<rparr>"
    using s4 by (auto dest: return_ok environment_loop_ok split: option.splits)
  have e7: "w' = w6\<lparr>issued := issued w6 @ [attach_session cfg]\<rparr>"
    using s7 by (auto simp: attach_session_def tmux_def command_list_templates dest: call_ok)
  have "w' = w\<lparr>issued := issued w @
       [tmux [''new-session'', ''-d'', ''-s'', session_name cfg],
        tmux [''set-option'', ''-t'', session_name cfg, ''default-path'',
              expandvars ext (project_root cfg)],
        tmux [''set-option'', ''-t'', session_name cfg, ''status-left-length'',
              str_int (int (length (session_name cfg)) + 2)]] @
       map (\<lambda>(k, v). tmux [''set-environment'', ''-t'', session_name cfg, k,
                            sub_refs (environ w) None v])
         (case environment cfg of None \<Rightarrow> [] | Some kvs \<Rightarrow> kvs) @
       [Shell (''tmux list-windows -t '' @ session_name cfg)] @
       concat (map (window_commands (session_name cfg) b vpath)
                 (zip (enumerate 0 (windows cfg)) bps)) @
       [attach_session cfg]\<rparr>"
    unfolding e7 e6 first_index_ok [OF s5] e4 e3 e2 e1 by simp
  with len show ?thesis by blast
qed

lemma virtualenv_path_issued:
  "virtualenv_path ext (w\<lparr>issued := evs\<rparr>) cfg = virtualenv_path ext w cfg"
  by (simp add: virtualenv_path_def virtualenvs_def)

lemma start_order:
  assumes "fst (config_for ext env w) = Inr cfg"
    and "\<not> session_exists ext w cfg"
    and "start ext env w = (Inr (), w')"
  shows "\<exists>base_index base_pindexes.
           length base_pindexes = length (windows cfg) \<and>
           issued w' =
             issued w @ provision_commands ext w cfg @ [has_session cfg] @
             session_commands ext w cfg base_index base_pindexes"
proof -
  let ?w1 = "w\<lparr>issued := issued w @ provision_commands ext w cfg\<rparr>"
  let ?argv = "[''tmux'', ''has-session'', ''-t'', session_name cfg]"
  let ?w2 = "?w1\<lparr>issued := issued ?w1 @ [Exec ?argv]\<rparr>"
  have cv: "confirm_virtualenv ext cfg False w = (Inr (), ?w1)"
    using confirm_virtualenv_start [of ext cfg w] assms(3)
    by (auto simp: start_unfold [OF assms(1)])
  obtain rc where hs: "run ext ''tmux has-session -t {session}''
                         [(''session'', session_name cfg)] ?w1 = (Inr rc, ?w2)"
    and rc: "spawn ext (issued ?w1) ?argv = Some rc"
    using assms(3) cv
    by (auto simp: start_unfold [OF assms(1)] run_def command_list_templates
        split: option.splits)
  have "rc \<noteq> 0"
    using rc assms(2) by (auto simp: session_exists_def)
  then have "build_session ext cfg (virtualenv_path ext ?w1 cfg) ?w2 = (Inr (), w')"
    using assms(3) cv hs by (simp add: start_unfold [OF assms(1)])
  from build_session_ok [OF this] obtain b bps where
    len: "length bps = length (windows cfg)"
    and w': "issued w' = issued w @ provision_commands ext w cfg @ [has_session cfg] @
               session_commands ext w cfg b bps"
    by (auto simp: session_commands_def has_session_def tmux_def virtualenv_path_issued)
  then show ?thesis by blast
qed

subsection \<open>start ends normally when the outside cooperates\<close>

lemma ends_return: "ends_normally (return a)"
  by (simp add: ends_normally_def return_def)

lemma ends_bind:
  "ends_normally m \<Longrightarrow> (\<And>a. ends_normally (f a)) \<Longrightarrow> ends_normally (bind m f)"
  unfolding ends_normally_def bind_def
proof
  fix w
  assume m: "\<forall>w. \<exists>a. fst (m w) = Inr a" and f: "\<And>a. \<forall>w. \<exists>b. fst (f a w) = Inr b"
  from m obtain a where "fst (m w) = Inr a" by blast
  then obtain w1 where "m w = (Inr a, w1)" by (cases "m w") simp
  with f [of a] show "\<exists>a. fst (case m w of (Inl e, w') \<Rightarrow> (Inl e, w') | (Inr a, w') \<Rightarrow> f a w') = Inr a"
    by simp
qed

lemma ends_next_do:
  "ends_normally m \<Longrightarrow> ends_normally n \<Longrightarrow> ends_normally (next_do m n)"
  by (simp add: next_do_def ends_bind)

lemma ends_call:
  "responsive ext \<Longrightarrow> command_list cmd kw = Inr argv \<Longrightarrow> ends_normally (call ext cmd kw)"
  by (auto simp: ends_normally_def responsive_def call_def run_def bind_def return_def
      split: option.splits)

lemma ends_first_index: "responsive ext \<Longrightarrow> ends_normally (first_index ext cmd)"
proof -
  assume r: "responsive ext"
  show ?thesis
    unfolding ends_normally_def
  proof
    fix w :: world
    from r obtain b where "fst (shell_out ext (issued w) cmd) = 0"
      and "py_int (first_field (snd (shell_out ext (issued w) cmd))) = Inr b"
      unfolding responsive_def by blast
    then show "\<exists>a. fst (first_index ext cmd w) = Inr a"
      by (cases "shell_out ext (issued w) cmd")
        (simp add: first_index_def check_output_def bind_def lift_def)
  qed
qed

lemma ends_pane_body:
  "responsive ext \<Longrightarrow> ends_normally (pane_body ext target bp vpath pindex pane)"
  unfolding pane_body_def Let_def
  by (intro ends_next_do)
    (auto intro: ends_return ends_call [OF _ command_list_templates(12)]
      ends_call [OF _ command_list_templates(13)] split: option.splits)

lemma ends_pane_loop:
  "responsive ext \<Longrightarrow> ends_normally (pane_loop ext target bp vpath pindex ps)"
  by (induction ps arbitrary: pindex) (auto intro: ends_return ends_next_do ends_pane_body)

lemma ends_window_body:
  "responsive ext \<Longrightarrow> ends_normally (window_body ext session b vpath index win)"
  unfolding window_body_def Let_def
  by (intro ends_next_do ends_bind ends_first_index)
    (auto intro: ends_return ends_next_do ends_pane_loop
      ends_call [OF _ command_list_templates(8)] ends_call [OF _ command_list_templates(9)]
      ends_call [OF _ command_list_templates(10)] ends_call [OF _ command_list_templates(11)]
      ends_call [OF _ command_list_templates(14)] ends_call [OF _ command_list_templates(15)])

lemma ends_window_loop:
  "responsive ext \<Longrightarrow> ends_normally (window_loop ext session b vpath index wins)"
  by (induction wins arbitrary: index) (auto intro: ends_return ends_next_do ends_window_body)

lemma ends_environment_loop:
  "responsive ext \<Longrightarrow> ends_normally (environment_loop ext session kvs)"
proof (induction kvs)
  case Nil
  then show ?case by (simp add: ends_return)
next
  case (Cons kv kvs)
  obtain k v where kv: "kv = (k, v)" by (cases kv)
  show ?case
    unfolding kv ends_normally_def
  proof
    fix w :: world
    have "ends_normally
            (next_do
               (call ext ''tmux set-environment -t {session} {key} {value}''
                  [(''session'', session), (''key'', k),
                   (''value'', sub_refs (environ w) None v)])
               (environment_loop ext session kvs))"
      using Cons by (intro ends_next_do ends_call [OF _ command_list_templates(7)]) auto
    then show "\<exists>a. fst (environment_loop ext session ((k, v) # kvs) w) = Inr a"
      by (simp add: ends_normally_def)
  qed
qed

lemma ends_build_session:
  "responsive ext \<Longrightarrow> ends_normally (build_session ext cfg vpath)"
  unfolding build_session_def Let_def
  by (intro ends_next_do ends_bind ends_first_index)
    (auto intro: ends_return ends_window_loop ends_environment_loop
      ends_call [OF _ command_list_templates(3)] ends_call [OF _ command_list_templates(4)]
      ends_call [OF _ command_list_templates(5)] ends_call [OF _ command_list_templates(6)]
      split: option.splits)

lemma start_ends:
  assumes "fst (config_for ext env w) = Inr cfg"
    and "\<not> session_exists ext w cfg"
    and "responsive ext"
  shows "fst (start ext env w) = Inr ()"
proof -
  let ?w1 = "w\<lparr>issued := issued w @ provision_commands ext w cfg\<rparr>"
  let ?argv = "[''tmux'', ''has-session'', ''-t'', session_name cfg]"
  let ?w2 = "?w1\<lparr>issued := issued ?w1 @ [Exec ?argv]\<rparr>"
  have "\<exists>a. fst (confirm_virtualenv ext cfg False w) = Inr a"
  proof (cases "requests_virtualenv cfg \<and>
      \<not> exists (virtualenv_dir ext w cfg (the (virtualenv cfg))) w")
    case True
    then show ?thesis
      using ends_call [OF assms(3) virtualenv_template, of "the (virtualenv cfg)"
          "virtualenv_dir ext w cfg (the (virtualenv cfg))"]
      by (simp add: confirm_virtualenv_unfold ends_normally_def)
  next
    case False
    then show ?thesis
      by (auto simp: confirm_virtualenv_unfold)
  qed
  then have cv: "confirm_virtualenv ext cfg False w = (Inr (), ?w1)"
    using confirm_virtualenv_start [of ext cfg w] by auto
  obtain rc where rc: "spawn ext (issued ?w1) ?argv = Some rc"
    using assms(3) unfolding responsive_def by fastforce
  then have hs: "run ext ''tmux has-session -t {session}''
                   [(''session'', session_name cfg)] ?w1 = (Inr rc, ?w2)"
    by (simp add: run_def command_list_templates)
  have "rc \<noteq> 0"
    using rc assms(2) by (auto simp: session_exists_def)
  moreover obtain a where
    "fst (build_session ext cfg (virtualenv_path ext ?w1 cfg) ?w2) = Inr a"
    using ends_build_session [OF assms(3)] unfolding ends_normally_def by blast
  ultimately show ?thesis
    using cv hs by (simp add: start_unfold [OF assms(1)])
qed

text \<open>
  Claim C1. The configuration is read and tmux answers that the session does not exist.
  Then, if start ends normally, the commands it has issued are, in this order: the
  environment-creation command if one was needed, the has-session question, and then
  the sequence of a new session: new-session, the default-path option, the
  status-left-length option, one set-environment for each entry of the environment
  mapping, then window by window in the listed order its creation, its panes in the
  listed order (split, send-keys), its layout if it has one and a select-pane, and last
  attach-session; the base indices in the targets are those tmux reported. And start
  does end normally whenever the outside cooperates.
\<close>

theorem start_issues_in_order:
  assumes "fst (config_for ext env w) = Inr cfg"
    and "\<not> session_exists ext w cfg"
  shows "(responsive ext \<longrightarrow> fst (start ext env w) = Inr ()) \<and>
         (fst (start ext env w) = Inr () \<longrightarrow>
            (\<exists>base_index base_pindexes.
               length base_pindexes = length (windows cfg) \<and>
               issued (snd (start ext env w)) =
                 issued w @ provision_commands ext w cfg @ [has_session cfg] @
                 session_commands ext w cfg base_index base_pindexes))"
proof (intro conjI impI)
  assume "responsive ext"
  then show "fst (start ext env w) = Inr ()"
    using assms by (rule start_ends [rotated 2])
next
  assume "fst (start ext env w) = Inr ()"
  then have "start ext env w = (Inr (), snd (start ext env w))"
    by (cases "start ext env w") simp
  then show "\<exists>base_index base_pindexes.
               length base_pindexes = length (windows cfg) \<and>
               issued (snd (start ext env w)) =
                 issued w @ provision_commands ext w cfg @ [has_session cfg] @
                 session_commands ext w cfg base_index base_pindexes"
    using assms by (rule start_order [rotated 2])
qed

lemma py_int_zero: "py_int (first_field ''0: bash'') = Inr 0"
  by code_simp

lemma demo_outside_responsive: "responsive demo_outside"
  by (simp add: responsive_def demo_outside_def py_int_zero)

lemma demo_config_read: "fst (config_for demo_outside ''proj'' demo_world) = Inr demo_config"
  by code_simp

lemma demo_no_session: "\<not> session_exists demo_outside demo_world demo_config"
  by (simp add: session_exists_def demo_outside_def)

text \<open>The concrete project, no session yet and an outside that cooperates: start ends
  normally, with the commands in the order of the claim.\<close>

theorem start_issues_in_order_witness:
  "responsive demo_outside \<and>
   \<not> session_exists demo_outside demo_world demo_config \<and>
   fst (start demo_outside ''proj'' demo_world) = Inr () \<and>
   (\<exists>base_index base_pindexes.
      length base_pindexes = length (windows demo_config) \<and>
      issued (snd (start demo_outside ''proj'' demo_world)) =
        issued demo_world @ provision_commands demo_outside demo_world demo_config @
        [has_session demo_config] @
        session_commands demo_outside demo_world demo_config base_index base_pindexes)"
  using start_issues_in_order [OF demo_config_read demo_no_session]
    demo_outside_responsive demo_no_session
  by blast


subsection \<open>A session that exists\<close>

lemma ask_cases:
  "ask prompt w = (Inl EOFError, w) \<and> stdin w = [] \<or>
   (\<exists>l. ask prompt w = (Inr l, w\<lparr>stdin := tl (stdin w)\<rparr>) \<and> stdin w \<noteq> [])"
  by (cases "stdin w") (simp_all add: ask_def)

lemma start_existing_cases:
  assumes "fst (config_for ext env w) = Inr cfg"
    and "session_exists ext w cfg"
  shows "start ext env w =
           (Inl OSError, w\<lparr>issued := issued w @ provision_commands ext w cfg\<rparr>) \<and>
           \<not> responsive ext \<or>
         start ext env w =
           (Inl EOFError,
            w\<lparr>issued := issued w @ provision_commands ext w cfg @ [has_session cfg]\<rparr>) \<and>
           stdin w = [] \<or>
         start ext env w =
           (Inl OSError,
            w\<lparr>stdin := tl (stdin w),
              issued := issued w @ provision_commands ext w cfg @
                        [has_session cfg, attach_session cfg]\<rparr>) \<and>
           \<not> responsive ext \<or>
         start ext env w =
           (Inr (),
            w\<lparr>stdin := tl (stdin w),
              issued := issued w @ provision_commands ext w cfg @
                        [has_session cfg, attach_session cfg]\<rparr>)"
proof -
  let ?P = "provision_commands ext w cfg"
  let ?w1 = "w\<lparr>issued := issued w @ ?P\<rparr>"
  let ?argv = "[''tmux'', ''has-session'', ''-t'', session_name cfg]"
  let ?w2 = "?w1\<lparr>issued := issued ?w1 @ [Exec ?argv]\<rparr>"
  let ?w3 = "?w2\<lparr>stdin := tl (stdin ?w2)\<rparr>"
  let ?att = "[''tmux'', ''-2'', ''attach-session'', ''-t'', session_name cfg]"
  let ?prompt = "''Session already exists: attaching. (Press any key to continue.)''"
  have hs: "run ext ''tmux has-session -t {session}'' [(''session'', session_name cfg)] ?w1 =
              (Inr 0, ?w2)"
    using assms(2) by (simp add: run_def command_list_templates session_exists_def)
  have att: "command_list ''tmux -2 attach-session -t {session}''
               [(''session'', session_name cfg)] = Inr ?att"
    by (rule command_list_templates)
  consider
    (fail) "confirm_virtualenv ext cfg False w = (Inl OSError, ?w1)"
      "confirm_virtualenv ext cfg False w \<noteq> (Inr (), ?w1)"
    | (ok) "confirm_virtualenv ext cfg False w = (Inr (), ?w1)"
    using confirm_virtualenv_start [of ext cfg w] by auto
  then show ?thesis
  proof cases
    case fail
    have "\<not> responsive ext"
    proof
      assume "responsive ext"
      then have "\<exists>a. fst (confirm_virtualenv ext cfg False w) = Inr a"
        using ends_call [OF _ virtualenv_template, of ext "the (virtualenv cfg)"
            "virtualenv_dir ext w cfg (the (virtualenv cfg))"]
        by (auto simp: confirm_virtualenv_unfold ends_normally_def)
      with fail show False by simp
    qed
    with fail show ?thesis
      by (simp add: start_unfold [OF assms(1)])
  next
    case ok
    have s: "start ext env w =
               next_do (ask ?prompt)
                 (call ext ''tmux -2 attach-session -t {session}''
                    [(''session'', session_name cfg)]) ?w2"
      using ok hs by (simp add: start_unfold [OF assms(1)])
    consider (eof) "ask ?prompt ?w2 = (Inl EOFError, ?w2)" "stdin ?w2 = []"
      | (line) l where "ask ?prompt ?w2 = (Inr l, ?w3)"
      using ask_cases [of ?prompt ?w2] by blast
    then show ?thesis
    proof cases
      case eof
      then show ?thesis
        unfolding s by (simp add: next_do_def bind_def has_session_def tmux_def)
    next
      case line
      consider (a) "call ext ''tmux -2 attach-session -t {session}''
                      [(''session'', session_name cfg)] ?w3 =
                    (Inr (), ?w3\<lparr>issued := issued ?w3 @ [Exec ?att]\<rparr>)"
        | (b) "call ext ''tmux -2 attach-session -t {session}''
                 [(''session'', session_name cfg)] ?w3 =
               (Inl OSError, ?w3\<lparr>issued := issued ?w3 @ [Exec ?att]\<rparr>)"
        using call_cases [OF att, of ext ?w3] by blast
      then show ?thesis
      proof cases
        case a
        with line show ?thesis
          unfolding s
          by (simp add: next_do_def bind_def has_session_def attach_session_def tmux_def)
      next
        case b
        have "\<not> responsive ext"
        proof
          assume "responsive ext"
          from ends_call [OF this att] b show False
            by (auto simp: ends_normally_def dest: spec [of _ ?w3])
        qed
        with b line show ?thesis
          unfolding s
          by (simp add: next_do_def bind_def has_session_def attach_session_def tmux_def)
      qed
    qed
  qed
qed

lemma provision_not_modifying:
  "list_all (\<lambda>e. \<not> modifies_session e) (provision_commands ext w cfg)"
  by (simp add: provision_commands_def virtualenv_command_def modifies_session_def)

lemma has_attach_not_modifying:
  "\<not> modifies_session (has_session cfg)" "\<not> modifies_session (attach_session cfg)"
  by (simp_all add: has_session_def attach_session_def tmux_def modifies_session_def)

text \<open>
  Claim C2. The configuration is read and tmux answers that the session exists. Then
  whatever start issues is not a command that changes a session: what it issues is the
  environment-creation command if one was needed, the has-session question and the
  attach-session command, or a first part of these when start is cut short (the
  virtualenv command or tmux cannot be executed, or the terminal is at its end). When
  start ends normally it has issued all of them, and it does end normally when the
  outside cooperates and the terminal has a line to read. The file system is untouched.
\<close>

theorem start_existing_session_attaches_only:
  assumes "fst (config_for ext env w) = Inr cfg"
    and "session_exists ext w cfg"
  shows "list_all (\<lambda>e. \<not> modifies_session e) (new_commands (start ext env) w) \<and>
         new_commands (start ext env) w \<in>
           set [provision_commands ext w cfg,
                provision_commands ext w cfg @ [has_session cfg],
                provision_commands ext w cfg @ [has_session cfg, attach_session cfg]] \<and>
         (fst (start ext env w) = Inr () \<longrightarrow>
            new_commands (start ext env) w =
              provision_commands ext w cfg @ [has_session cfg, attach_session cfg]) \<and>
         (responsive ext \<and> stdin w \<noteq> [] \<longrightarrow> fst (start ext env w) = Inr ()) \<and>
         files (snd (start ext env w)) = files w"
  using start_existing_cases [OF assms] provision_not_modifying [of ext w cfg]
    has_attach_not_modifying [of cfg]
  by (auto simp: new_commands_def)

lemma demo_config_read_venv:
  "fst (config_for demo_outside_running ''proj'' demo_world_venv) = Inr demo_config"
  by code_simp

lemma demo_session_running:
  "session_exists demo_outside_running demo_world_venv demo_config"
  by (simp add: session_exists_def demo_outside_running_def demo_outside_def)

lemma demo_outside_running_responsive: "responsive demo_outside_running"
  by (simp add: responsive_def demo_outside_running_def demo_outside_def py_int_zero)

lemma demo_provision_venv:
  "provision_commands demo_outside_running demo_world_venv demo_config = []"
  by code_simp

text \<open>The concrete project with its virtualenv and its session in place: start asks
  tmux and attaches, nothing else.\<close>

theorem start_existing_session_attaches_only_witness:
  "session_exists demo_outside_running demo_world_venv demo_config \<and>
   fst (start demo_outside_running ''proj'' demo_world_venv) = Inr () \<and>
   new_commands (start demo_outside_running ''proj'') demo_world_venv =
     [Exec [''tmux'', ''has-session'', ''-t'', ''proj''],
      Exec [''tmux'', ''-2'', ''attach-session'', ''-t'', ''proj'']]"
proof -
  have "stdin demo_world_venv \<noteq> []"
    by (simp add: demo_world_venv_def demo_world_def)
  then show ?thesis
    using start_existing_session_attaches_only [OF demo_config_read_venv demo_session_running]
      demo_outside_running_responsive demo_session_running demo_provision_venv
    by (simp add: has_session_def attach_session_def tmux_def demo_config_def)
qed

subsection \<open>The virtualenv comes first, and once\<close>

lemma emits_return: "emits_only P (return a)"
  by (simp add: emits_only_def return_def)

lemma emits_bind:
  assumes "emits_only P m" and "\<And>a. emits_only P (f a)"
  shows "emits_only P (bind m f)"
  unfolding emits_only_def
proof
  fix w :: world
  from assms(1) obtain evs where
    m: "issued (snd (m w)) = issued w @ evs" "list_all P evs"
    unfolding emits_only_def by blast
  show "\<exists>evs. issued (snd (bind m f w)) = issued w @ evs \<and> list_all P evs"
  proof (cases "m w")
    case (Pair r w1)
    show ?thesis
    proof (cases r)
      case (Inl e)
      with Pair m show ?thesis
        by (auto simp: bind_def)
    next
      case (Inr a)
      from assms(2) [of a] obtain evs' where
        "issued (snd (f a w1)) = issued w1 @ evs'" "list_all P evs'"
        unfolding emits_only_def by blast
      with Pair Inr m have
        "issued (snd (bind m f w)) = issued w @ (evs @ evs') \<and> list_all P (evs @ evs')"
        by (simp add: bind_def)
      then show ?thesis by blast
    qed
  qed
qed

lemma emits_next_do:
  "emits_only P m \<Longrightarrow> emits_only P n \<Longrightarrow> emits_only P (next_do m n)"
  by (simp add: next_do_def emits_bind)

lemma emits_run:
  assumes "command_list cmd kw = Inr argv" and "P (Exec argv)"
  shows "emits_only P (run ext cmd kw)"
  unfolding emits_only_def
proof
  fix w :: world
  have "issued (snd (run ext cmd kw w)) = issued w @ [Exec argv]"
    using assms(1) by (simp add: run_def split: option.splits)
  with assms(2) show "\<exists>evs. issued (snd (run ext cmd kw w)) = issued w @ evs \<and> list_all P evs"
    by simp
qed

lemma emits_call:
  "command_list cmd kw = Inr argv \<Longrightarrow> P (Exec argv) \<Longrightarrow> emits_only P (call ext cmd kw)"
  unfolding call_def by (intro emits_bind emits_return) (rule emits_run)

lemma emits_first_index:
  assumes "P (Shell cmd)"
  shows "emits_only P (first_index ext cmd)"
  unfolding emits_only_def
proof
  fix w :: world
  have "issued (snd (first_index ext cmd w)) = issued w @ [Shell cmd]"
    by (simp add: first_index_def check_output_def bind_def lift_def split: prod.splits)
  with assms show
    "\<exists>evs. issued (snd (first_index ext cmd w)) = issued w @ evs \<and> list_all P evs"
    by simp
qed

lemma emits_ask: "emits_only P (ask prompt)"
  unfolding emits_only_def
proof
  fix w :: world
  have "issued (snd (ask prompt w)) = issued w @ []"
    by (simp add: ask_def split: list.splits)
  then show "\<exists>evs. issued (snd (ask prompt w)) = issued w @ evs \<and> list_all P evs"
    by (intro exI [of _ "[]"]) simp
qed

lemma other_tmux: "other_command (Exec (''tmux'' # args))" and other_shell: "other_command (Shell cmd)"
  by (simp_all add: creates_environment_def)

lemma emits_call_tmux:
  "command_list cmd kw = Inr (''tmux'' # args) \<Longrightarrow> emits_only other_command (call ext cmd kw)"
  by (erule emits_call) (rule other_tmux)

lemma emits_run_tmux:
  "command_list cmd kw = Inr (''tmux'' # args) \<Longrightarrow> emits_only other_command (run ext cmd kw)"
  by (erule emits_run) (rule other_tmux)

lemmas emits_tmux =
  emits_call_tmux [OF command_list_templates(2)]
  emits_call_tmux [OF command_list_templates(3)]
  emits_call_tmux [OF command_list_templates(4)]
  emits_call_tmux [OF command_list_templates(5)]
  emits_call_tmux [OF command_list_templates(6)]
  emits_call_tmux [OF command_list_templates(7)]
  emits_call_tmux [OF command_list_templates(8)]
  emits_call_tmux [OF command_list_templates(9)]
  emits_call_tmux [OF command_list_templates(10)]
  emits_call_tmux [OF command_list_templates(11)]
  emits_call_tmux [OF command_list_templates(12)]
  emits_call_tmux [OF command_list_templates(13)]
  emits_call_tmux [OF command_list_templates(14)]
  emits_call_tmux [OF command_list_templates(15)]
  emits_run_tmux [OF command_list_templates(2)]

lemma emits_pane_body:
  "emits_only other_command (pane_body ext target bp vpath pindex pane)"
  unfolding pane_body_def Let_def
  by (intro emits_next_do) (auto intro: emits_return emits_tmux split: option.splits)

lemma emits_pane_loop:
  "emits_only other_command (pane_loop ext target bp vpath pindex ps)"
  by (induction ps arbitrary: pindex) (auto intro: emits_return emits_next_do emits_pane_body)

lemma emits_window_body:
  "emits_only other_command (window_body ext session b vpath index win)"
  unfolding window_body_def Let_def
  by (intro emits_next_do emits_bind emits_first_index other_shell)
    (auto intro: emits_return emits_next_do emits_pane_loop emits_tmux)

lemma emits_window_loop:
  "emits_only other_command (window_loop ext session b vpath index wins)"
  by (induction wins arbitrary: index) (auto intro: emits_return emits_next_do emits_window_body)

lemma emits_environment_loop:
  "emits_only other_command (environment_loop ext session kvs)"
proof (induction kvs)
  case Nil
  then show ?case by (simp add: emits_return)
next
  case (Cons kv kvs)
  obtain k v where kv: "kv = (k, v)" by (cases kv)
  show ?case
    unfolding kv emits_only_def
  proof
    fix w :: world
    have "emits_only other_command
            (next_do
               (call ext ''tmux set-environment -t {session} {key} {value}''
                  [(''session'', session), (''key'', k),
                   (''value'', sub_refs (environ w) None v)])
               (environment_loop ext session kvs))"
      using Cons by (intro emits_next_do emits_tmux)
    then show "\<exists>evs. issued (snd (environment_loop ext session ((k, v) # kvs) w)) =
                      issued w @ evs \<and> list_all other_command evs"
      by (simp add: emits_only_def)
  qed
qed

lemma emits_build_session:
  "emits_only other_command (build_session ext cfg vpath)"
  unfolding build_session_def Let_def
  by (intro emits_next_do emits_bind emits_first_index other_shell)
    (auto intro: emits_return emits_window_loop emits_environment_loop emits_tmux
      split: option.splits)

lemma emits_after_provision:
  "emits_only other_command
     (bind (run ext ''tmux has-session -t {session}'' [(''session'', session_name cfg)])
        (\<lambda>rc. if rc = 0 then
                next_do (ask ''Session already exists: attaching. (Press any key to continue.)'')
                  (call ext ''tmux -2 attach-session -t {session}''
                     [(''session'', session_name cfg)])
              else build_session ext cfg vpath))"
  by (intro emits_bind) (auto intro: emits_tmux emits_next_do emits_ask emits_build_session)

lemma provision_creates:
  "list_all creates_environment (provision_commands ext w cfg)"
  by (simp add: provision_commands_def virtualenv_command_def creates_environment_def)

text \<open>
  Claim C7. The configuration is read. Whatever start then issues, and however it ends,
  begins with the environment-creation commands, and no other command after them is
  one: these are exactly one command, when the configuration asks for a virtualenv and
  nothing exists at its path, and none otherwise, that is when the virtualenv exists
  or the configuration has no virtualenv section.
\<close>

theorem start_provisions_virtualenv_first:
  assumes "fst (config_for ext env w) = Inr cfg"
  shows "\<exists>others.
           new_commands (start ext env) w = provision_commands ext w cfg @ others \<and>
           list_all (\<lambda>e. \<not> creates_environment e) others \<and>
           list_all creates_environment (provision_commands ext w cfg) \<and>
           length (provision_commands ext w cfg) =
             (if requests_virtualenv cfg \<and>
                 \<not> exists (virtualenv_dir ext w cfg (the (virtualenv cfg))) w
              then 1 else 0)"
proof -
  let ?P = "provision_commands ext w cfg"
  let ?w1 = "w\<lparr>issued := issued w @ ?P\<rparr>"
  let ?after = "bind (run ext ''tmux has-session -t {session}'' [(''session'', session_name cfg)])
        (\<lambda>rc. if rc = 0 then
                next_do (ask ''Session already exists: attaching. (Press any key to continue.)'')
                  (call ext ''tmux -2 attach-session -t {session}''
                     [(''session'', session_name cfg)])
              else build_session ext cfg (virtualenv_path ext ?w1 cfg))"
  have len: "length ?P =
      (if requests_virtualenv cfg \<and> \<not> exists (virtualenv_dir ext w cfg (the (virtualenv cfg))) w
       then 1 else 0)"
    by (simp add: provision_commands_def)
  have "\<exists>others. issued (snd (start ext env w)) = issued w @ ?P @ others \<and>
          list_all other_command others"
  proof -
    consider (fail) "confirm_virtualenv ext cfg False w = (Inl OSError, ?w1)"
      | (ok) "confirm_virtualenv ext cfg False w = (Inr (), ?w1)"
      using confirm_virtualenv_start [of ext cfg w] by auto
    then show ?thesis
    proof cases
      case fail
      then have "issued (snd (start ext env w)) = issued w @ ?P @ []"
        by (simp add: start_unfold [OF assms])
      then show ?thesis
        by (intro exI [of _ "[]"]) simp
    next
      case ok
      then have s: "start ext env w = ?after ?w1"
        by (simp add: start_unfold [OF assms] bind_def split: prod.splits sum.splits)
      from emits_after_provision [of ext cfg "virtualenv_path ext ?w1 cfg"]
      obtain evs where "issued (snd (?after ?w1)) = issued ?w1 @ evs" "list_all other_command evs"
        unfolding emits_only_def by blast
      then have "issued (snd (start ext env w)) = issued w @ ?P @ evs \<and> list_all other_command evs"
        unfolding s by simp
      then show ?thesis by blast
    qed
  qed
  then show ?thesis
    using len provision_creates [of ext w cfg]
    by (auto simp: new_commands_def)
qed

lemma demo_provision:
  "provision_commands demo_outside demo_world demo_config =
     [Exec [''virtualenv'', ''-p'', ''/usr/bin/python'', ''--no-site-packages'',
            ''/home/u/.virtualenvs/proj'']]"
  by code_simp

lemma demo_config_read_existing:
  "fst (config_for demo_outside ''proj'' demo_world_venv) = Inr demo_config"
  by code_simp

lemma demo_provision_existing:
  "provision_commands demo_outside demo_world_venv demo_config = []"
  by code_simp

text \<open>The concrete project: without its virtualenv the first command of start creates
  it and no later one does; with the virtualenv in place no command creates one.\<close>

theorem start_provisions_virtualenv_first_witness:
  "(\<exists>others.
      new_commands (start demo_outside ''proj'') demo_world =
        Exec [''virtualenv'', ''-p'', ''/usr/bin/python'', ''--no-site-packages'',
              ''/home/u/.virtualenvs/proj''] # others \<and>
      list_all (\<lambda>e. \<not> creates_environment e) others) \<and>
   list_all (\<lambda>e. \<not> creates_environment e)
     (new_commands (start demo_outside ''proj'') demo_world_venv)"
  using start_provisions_virtualenv_first [OF demo_config_read]
    start_provisions_virtualenv_first [OF demo_config_read_existing]
  by (auto simp: demo_provision demo_provision_existing)

end
